theory Spec2Isabelle
  imports Complex_Main "HOL-Library.AList" "HOL-Library.Multiset"
begin

section \<open>Data model (models/__init__.py)\<close>

text \<open>
  The enums of the source are datatypes with the source's member names. The pydantic
  models are records. Where two models use the same field name the record fields carry a
  prefix: \<open>Claim.id/text/type\<close> are \<open>c_id/c_text/c_type\<close>, \<open>Finding.type/text\<close> are
  \<open>f_type/f_text\<close>, \<open>Settlement.oracle/confidence/summary\<close> are \<open>s_oracle/s_confidence/s_summary\<close> and
  \<open>VerificationSession.id\<close> is \<open>vs_id\<close>. The \<open>created_at\<close>, \<open>settled_at\<close> and
  \<open>timestamp\<close> fields hold the wall clock and are read by none of the functions below;
  they are left out.

  Python floats are modelled as \<open>real\<close>: the arithmetic below is the exact arithmetic that
  the source's floating-point expressions approximate. The two agree up to the last bits of
  a double; where a score lies exactly on a threshold or on a decimal half, those bits
  decide on which side the source falls. Python strings are \<open>string\<close>.
\<close>

datatype ClaimType = NUMERIC | ENTITY | EVENT | CASE_LAW | LEGAL | QUOTE | CAUSAL

datatype Severity = CRITICAL | HIGH | MED | LOW

datatype Verdict = TRUE | FALSE | UNCERTAIN

datatype RiskAction = ALLOW | REWRITE | BLOCK

datatype AgentSide = LONG | SHORT

datatype FindingType =
  CONFIRMED | CONTRADICTION | SUPPORTS | FLAG | INCONSISTENCY | CONSISTENT | PATTERN | NOT_FOUND

record Claim =
  c_id :: string
  c_text :: string
  c_type :: ClaimType
  severity :: Severity
  source_text :: string

record Finding =
  f_type :: FindingType
  f_text :: string
  source :: string
  relevance :: real

record AgentAssessment =
  agent_name :: string
  claim_id :: string
  position :: AgentSide
  confidence :: real
  summary :: string
  findings :: "Finding list"
  latency_ms :: real

record ClaimVerification =
  claim :: Claim
  risk_score :: real
  verdict :: Verdict
  action :: RiskAction
  rationale :: string
  assessments :: "AgentAssessment list"

record Settlement =
  session_id :: string
  s_oracle :: string
  s_confidence :: real
  s_summary :: string
  evidence_supporting :: int
  evidence_contradicting :: int
  evidence_neutral :: int
  recommendation :: string

record VerificationSession =
  vs_id :: string
  prompt :: string
  llm_response :: string
  claims :: "Claim list"
  verifications :: "ClaimVerification list"
  settlement :: "Settlement option"
  overall_action :: "RiskAction option"

text \<open>
  The exceptions the modelled code can meet: pydantic's \<open>ValidationError\<close> (a field
  constraint \<open>Field(ge=0.0, le=1.0)\<close> violated when a model is constructed), \<open>KeyError\<close> (a
  dict subscript with a missing key) and whatever a verifier raises.
\<close>

datatype error = ValidationError | KeyError | VerifierError string

text \<open>
  The constraints pydantic checks when a \<open>Finding\<close> or an \<open>AgentAssessment\<close> is built:
  every such value that exists at run time satisfies them.
\<close>

definition valid_finding :: "Finding \<Rightarrow> bool" where
  "valid_finding f = (0 \<le> relevance f \<and> relevance f \<le> 1)"

definition valid_assessment :: "AgentAssessment \<Rightarrow> bool" where
  "valid_assessment a =
     (0 \<le> confidence a \<and> confidence a \<le> 1 \<and> list_all valid_finding (findings a))"

text \<open>The constructor of \<open>ClaimVerification\<close>, with its check of \<open>risk_score\<close>.\<close>

definition new_ClaimVerification ::
  "Claim \<Rightarrow> real \<Rightarrow> Verdict \<Rightarrow> RiskAction \<Rightarrow> string \<Rightarrow> AgentAssessment list
     \<Rightarrow> error + ClaimVerification" where
  "new_ClaimVerification c r v act rat as =
     (if 0 \<le> r \<and> r \<le> 1
      then Inr \<lparr>claim = c, risk_score = r, verdict = v, action = act, rationale = rat,
                assessments = as\<rparr>
      else Inl ValidationError)"

section \<open>Configuration (config.py)\<close>

text \<open>
  The two thresholds are read from the environment when the module is loaded; the model
  takes them as a value. \<open>default_config\<close> holds the defaults of the source.
\<close>

record Config =
  RISK_THRESHOLD_ALLOW :: real
  RISK_THRESHOLD_REWRITE :: real

definition default_config :: Config where
  "default_config = \<lparr>RISK_THRESHOLD_ALLOW = 0.80, RISK_THRESHOLD_REWRITE = 0.40\<rparr>"

section \<open>Python built-ins used by the risk engine\<close>

text \<open>
  \<open>round(x, n)\<close>: to the nearest multiple of \<open>10^-n\<close>, a tie to the even one. The
  source rounds the value of the stored double, which for a decimal such as 0.12345 lies
  off the tie; the model rounds the real number it is given.
\<close>

definition round_half_even :: "real \<Rightarrow> int" where
  "round_half_even x =
     (let f = \<lfloor>x\<rfloor>; d = x - of_int f
      in if d < 1/2 then f else if 1/2 < d then f + 1 else if even f then f else f + 1)"

definition py_round :: "real \<Rightarrow> nat \<Rightarrow> real" where
  "py_round x n = of_int (round_half_even (x * 10 ^ n)) / 10 ^ n"

text \<open>\<open>dict.get(key, default)\<close> on a dict given as a map.\<close>

definition dict_get :: "('k \<rightharpoonup> 'v) \<Rightarrow> 'k \<Rightarrow> 'v \<Rightarrow> 'v" where
  "dict_get d k dflt = (case d k of Some v \<Rightarrow> v | None \<Rightarrow> dflt)"

text \<open>Decimal digits of an integer, as \<open>str(n)\<close> and the f-string fields print it.\<close>

fun digits_of :: "nat \<Rightarrow> nat \<Rightarrow> string" where
  "digits_of 0 n = ''''"
| "digits_of (Suc fuel) n =
     (if n < 10 then [char_of (48 + n)]
      else digits_of fuel (n div 10) @ [char_of (48 + n mod 10)])"

definition str_int :: "int \<Rightarrow> string" where
  "str_int i = (if i < 0 then ''-'' @ digits_of (Suc (nat (- i))) (nat (- i))
                else digits_of (Suc (nat i)) (nat i))"

text \<open>\<open>sep.join(parts)\<close>.\<close>

fun join :: "string \<Rightarrow> string list \<Rightarrow> string" where
  "join sep [] = ''''"
| "join sep [p] = p"
| "join sep (p # q # ps) = p @ sep @ join sep (q # ps)"

text \<open>\<open>max(xs, key=k)\<close> on a non-empty list: the first element with the largest key.\<close>

fun max_by :: "('a \<Rightarrow> real) \<Rightarrow> 'a \<Rightarrow> 'a list \<Rightarrow> 'a" where
  "max_by k best [] = best"
| "max_by k best (x # xs) = max_by k (if k best < k x then x else best) xs"

text \<open>
  \<open>f"{x:.0%}"\<close>: the value times 100, rounded to an integer, followed by a percent sign
  (for the scores in \<open>[0, 1]\<close> that reach it). At a decimal half the double product of
  the source can print the neighbouring integer.
\<close>

definition format_percent :: "real \<Rightarrow> string" where
  "format_percent x = str_int (round_half_even (x * 100)) @ ''%''"

section \<open>Risk aggregation engine (services/risk_engine.py)\<close>

definition AGENT_WEIGHTS :: "string \<rightharpoonup> real" where
  "AGENT_WEIGHTS =
     [''NumericVerifier'' \<mapsto> 1.0, ''RetrieverAgent'' \<mapsto> 0.9, ''ConsistencyBot'' \<mapsto> 0.8]"

definition SEVERITY_MULTIPLIERS :: "Severity \<rightharpoonup> real" where
  "SEVERITY_MULTIPLIERS =
     [CRITICAL \<mapsto> 1.20, HIGH \<mapsto> 1.10, MED \<mapsto> 1.00, LOW \<mapsto> 0.85]"

text \<open>The body of the \<open>for a in assessments\<close> loop, split by the value it computes.\<close>

definition evidence_weight :: "AgentAssessment \<Rightarrow> real" where
  "evidence_weight a =
     (if findings a \<noteq> []
      then (let avg_relevance = sum_list (map relevance (findings a)) / real (length (findings a))
            in 0.7 + 0.3 * avg_relevance)
      else 0.5)"

definition effective_weight :: "AgentAssessment \<Rightarrow> real" where
  "effective_weight a = dict_get AGENT_WEIGHTS (agent_name a) 0.8 * evidence_weight a"

definition truth_prob :: "AgentAssessment \<Rightarrow> real" where
  "truth_prob a = (if position a = LONG then confidence a else 1.0 - confidence a)"

text \<open>The loop itself: the two accumulators \<open>weighted_sum\<close> and \<open>weight_total\<close>.\<close>

fun weigh :: "AgentAssessment list \<Rightarrow> real \<times> real \<Rightarrow> real \<times> real" where
  "weigh [] (weighted_sum, weight_total) = (weighted_sum, weight_total)"
| "weigh (a # as) (weighted_sum, weight_total) =
     weigh as (weighted_sum + truth_prob a * effective_weight a,
               weight_total + effective_weight a)"

text \<open>Step 1: \<open>risk_score\<close> before the disagreement penalty.\<close>

definition weighted_risk :: "AgentAssessment list \<Rightarrow> real" where
  "weighted_risk as =
     (case weigh as (0, 0) of (weighted_sum, weight_total) \<Rightarrow>
        if weight_total > 0 then weighted_sum / weight_total else 0.5)"

text \<open>Step 2: the disagreement penalty, applied to the score of step 1.\<close>

definition final_risk :: "AgentAssessment list \<Rightarrow> real" where
  "final_risk as =
     (let score = weighted_risk as;
          positions = map position as;
          long_count = count_list positions LONG;
          short_count = count_list positions SHORT
      in if long_count > 0 \<and> short_count > 0
         then (let minority_share = real (min long_count short_count) / real (length positions);
                   disagreement_penalty = minority_share * 0.15
               in score * (1 - disagreement_penalty) + 0.5 * disagreement_penalty)
         else score)"

text \<open>Step 3: the thresholds adjusted by severity and clamped.\<close>

definition adjusted_allow :: "Config \<Rightarrow> Severity \<Rightarrow> real" where
  "adjusted_allow cfg sev =
     min (RISK_THRESHOLD_ALLOW cfg * dict_get SEVERITY_MULTIPLIERS sev 1.0) 0.95"

definition adjusted_rewrite :: "Config \<Rightarrow> Severity \<Rightarrow> real" where
  "adjusted_rewrite cfg sev =
     min (RISK_THRESHOLD_REWRITE cfg * dict_get SEVERITY_MULTIPLIERS sev 1.0)
         (adjusted_allow cfg sev - 0.05)"

text \<open>
  Step 4: verdict and action. The comparisons are between reals; the source compares the
  doubles, whose products differ from the exact ones in the last bits (0.8 * 1.1 is the
  double above 0.88).
\<close>

definition decide :: "Config \<Rightarrow> Severity \<Rightarrow> real \<Rightarrow> Verdict \<times> RiskAction" where
  "decide cfg sev score =
     (if score \<ge> adjusted_allow cfg sev then (TRUE, ALLOW)
      else if score \<ge> adjusted_rewrite cfg sev then (UNCERTAIN, REWRITE)
      else (FALSE, BLOCK))"

text \<open>
  Step 5: \<open>_generate_rationale\<close>. The dash of the third branch is U+2014, written as its
  three UTF-8 bytes; \<open>top.text[:120]\<close> is \<open>take 120\<close>, which is the source's slice for
  ASCII finding texts.
\<close>

definition generate_rationale ::
  "Claim \<Rightarrow> AgentAssessment list \<Rightarrow> real \<Rightarrow> Verdict \<Rightarrow> RiskAction \<Rightarrow> string" where
  "generate_rationale c as risk v act =
     (let short_agents = filter (\<lambda>a. position a = SHORT) as;
          long_agents = filter (\<lambda>a. position a = LONG) as;
          parts =
            (if v = FALSE then
               [''Claim scored '' @ format_percent risk @ '' factuality.''] @
               (if short_agents \<noteq> [] then
                  [str_int (int (length short_agents)) @ ''/3 verifiers flagged issues (''
                     @ join '', '' (map agent_name short_agents) @ '').''] @
                  (let all_findings = concat (map findings short_agents)
                   in if all_findings \<noteq> []
                      then [''Key finding: '' @
                              take 120 (f_text (max_by relevance (hd all_findings) (tl all_findings)))]
                      else [])
                else [])
             else if v = TRUE then
               [''Claim verified with '' @ format_percent risk @ '' confidence.''] @
               (if long_agents \<noteq> [] then
                  [str_int (int (length long_agents)) @ ''/3 verifiers confirmed.'',
                   str_int (int (sum_list (map (\<lambda>a. length (findings a)) long_agents)))
                     @ '' supporting evidence items found.'']
                else [])
             else
               [''Claim scored '' @ format_percent risk @ '' ''
                  @ [CHR 0xE2, CHR 0x80, CHR 0x94]
                  @ '' insufficient confidence to allow or block.'',
                ''Routed for human review with suggested rewrites.''])
      in join '' '' parts)"

definition aggregate_risk ::
  "Config \<Rightarrow> Claim \<Rightarrow> AgentAssessment list \<Rightarrow> error + ClaimVerification" where
  "aggregate_risk cfg c as =
     (if as = [] then
        new_ClaimVerification c 0.50 UNCERTAIN BLOCK ''No agent assessments available.'' as
      else
        (let risk = final_risk as;
             (v, act) = decide cfg (severity c) risk;
             rat = generate_rationale c as risk v act
         in new_ClaimVerification c (py_round risk 4) v act rat as))"

text \<open>\<open>determine_overall_action\<close>: the first loop, then the two membership tests.\<close>

fun severe_block :: "ClaimVerification list \<Rightarrow> bool" where
  "severe_block [] = False"
| "severe_block (v # vs) =
     (if action v = BLOCK \<and> (severity (claim v) = CRITICAL \<or> severity (claim v) = HIGH)
      then True else severe_block vs)"

definition determine_overall_action :: "ClaimVerification list \<Rightarrow> RiskAction" where
  "determine_overall_action vs =
     (if vs = [] then BLOCK
      else (let actions = map action vs
            in if severe_block vs then BLOCK
               else if REWRITE \<in> set actions then REWRITE
               else if BLOCK \<in> set actions then REWRITE
               else ALLOW))"

section \<open>Verification orchestrator (services/orchestrator.py)\<close>

text \<open>
  The orchestrator calls three collaborators that reach regular expressions, databases and
  remote services: \<open>extract_claims\<close>, the \<open>verify\<close> method of each agent of \<open>ALL_AGENTS\<close>
  and \<open>settle\<close>. The model takes them as values of an environment, together with the
  configuration and the identifier that \<open>uuid4\<close> gives the session, so that every theorem
  holds for every behaviour of the collaborators. A \<open>verify\<close> call either returns an
  assessment or raises.

  A dict is an association list in insertion order; \<open>d[k] = v\<close> is \<open>AList.update k v d\<close>
  and \<open>k in d\<close> and \<open>d[k]\<close> read \<open>map_of d k\<close>.
\<close>

type_synonym AssessmentDict = "(string \<times> AgentAssessment list) list"

record Context =
  other_claims :: "Claim list"
  other_assessments :: AssessmentDict
  domain :: string

type_synonym Verifier = "Claim \<Rightarrow> Context \<Rightarrow> error + AgentAssessment"

record Env =
  config :: Config
  extract_claims :: "string \<Rightarrow> string \<Rightarrow> Claim list"
  ALL_AGENTS :: "Verifier list"
  settle :: "string \<Rightarrow> ClaimVerification list \<Rightarrow> RiskAction \<Rightarrow> Settlement"
  new_session_id :: string

text \<open>
  The calls made to the collaborators are recorded in a log, in the order they are made:
  the position of the agent in \<open>ALL_AGENTS\<close> with the claim and the context it receives,
  and the arguments of \<open>settle\<close>.
\<close>

datatype Effect =
    VerifyCall nat Claim Context
  | SettleCall string "ClaimVerification list" RiskAction

text \<open>The events of the streaming mode: \<open>WSEventType\<close> and the \<open>data\<close> dict of each type.\<close>

datatype WSEventType =
  SESSION_CREATED | CLAIMS_EXTRACTED | AGENT_QUOTE | RISK_UPDATE | SETTLEMENT | ACTION | ERROR

datatype EventData =
    SessionCreatedData string string
  | ClaimsExtractedData "(string \<times> string \<times> ClaimType \<times> Severity) list"
  | AgentQuoteData string string AgentSide real string nat
  | RiskUpdateData string real Verdict RiskAction string
  | SettlementData string string real string int int int string RiskAction
  | ActionData string string

record WSEvent =
  ev_type :: WSEventType
  ev_data :: EventData

text \<open>
  The local variables of the claim loop, the events yielded so far (none in batch mode)
  and the log.
\<close>

record LoopState =
  all_verifications :: "ClaimVerification list"
  all_assessments :: AssessmentDict
  events :: "WSEvent list"
  calls :: "Effect list"

definition initial_state :: "WSEvent list \<Rightarrow> LoopState" where
  "initial_state evs =
     \<lparr>all_verifications = [], all_assessments = [], events = evs, calls = []\<rparr>"

text \<open>
  \<open>context["other_assessments"]\<close> is the dict \<open>all_assessments\<close> itself, not a copy. A
  verifier reads it while it runs, so the context of a call holds the content the dict has
  when the call is made.
\<close>

definition make_context :: "Claim list \<Rightarrow> Claim \<Rightarrow> AssessmentDict \<Rightarrow> string \<Rightarrow> Context" where
  "make_context cs c d dmn =
     \<lparr>other_claims = filter (\<lambda>x. c_id x \<noteq> c_id c) cs, other_assessments = d, domain = dmn\<rparr>"

subsection \<open>Batch mode: \<open>run_verification\<close>\<close>

text \<open>
  \<open>asyncio.gather(*agent_tasks, return_exceptions=True)\<close>: every agent is called with the
  same context, and an exception is returned in the result list in place of the assessment.
\<close>

definition gather :: "Verifier list \<Rightarrow> Claim \<Rightarrow> Context \<Rightarrow> (error + AgentAssessment) list" where
  "gather agents c ctx = map (\<lambda>agent. agent c ctx) agents"

definition gather_calls :: "Verifier list \<Rightarrow> Claim \<Rightarrow> Context \<Rightarrow> Effect list" where
  "gather_calls agents c ctx = map (\<lambda>i. VerifyCall i c ctx) [0..<length agents]"

text \<open>\<open>[a for a in assessments if isinstance(a, AgentAssessment)]\<close>\<close>

fun valid_assessments :: "(error + AgentAssessment) list \<Rightarrow> AgentAssessment list" where
  "valid_assessments [] = []"
| "valid_assessments (Inl e # rs) = valid_assessments rs"
| "valid_assessments (Inr a # rs) = a # valid_assessments rs"

text \<open>
  The loop \<open>for claim in claims\<close>. An exception leaves the loop with the state reached;
  the second component is the exception.
\<close>

fun batch_loop ::
  "Env \<Rightarrow> Claim list \<Rightarrow> string \<Rightarrow> Claim list \<Rightarrow> LoopState \<Rightarrow> LoopState \<times> error option" where
  "batch_loop env cs dmn [] st = (st, None)"
| "batch_loop env cs dmn (c # rest) st =
     (let ctx = make_context cs c (all_assessments st) dmn;
          assessments = gather (ALL_AGENTS env) c ctx;
          st1 = st\<lparr>calls := calls st @ gather_calls (ALL_AGENTS env) c ctx\<rparr>;
          valid = valid_assessments assessments;
          st2 = st1\<lparr>all_assessments := AList.update (c_id c) valid (all_assessments st1)\<rparr>
      in case aggregate_risk (config env) c valid of
           Inl e \<Rightarrow> (st2, Some e)
         | Inr verification \<Rightarrow>
             batch_loop env cs dmn rest
               (st2\<lparr>all_verifications := all_verifications st2 @ [verification]\<rparr>))"

definition run_verification ::
  "Env \<Rightarrow> string \<Rightarrow> string \<Rightarrow> string \<Rightarrow> Effect list \<times> (error + VerificationSession)" where
  "run_verification env p response dmn =
     (let session = \<lparr>vs_id = new_session_id env, prompt = p, llm_response = response,
                     claims = [], verifications = [], settlement = None,
                     overall_action = None\<rparr>;
          cs = extract_claims env response dmn;
          session = session\<lparr>claims := cs\<rparr>
      in if cs = [] then ([], Inr (session\<lparr>overall_action := Some ALLOW\<rparr>))
         else
           (case batch_loop env cs dmn cs (initial_state []) of
              (st, Some e) \<Rightarrow> (calls st, Inl e)
            | (st, None) \<Rightarrow>
                (let session = session\<lparr>verifications := all_verifications st\<rparr>;
                     overall = determine_overall_action (all_verifications st);
                     session = session\<lparr>overall_action := Some overall\<rparr>;
                     settlement = settle env (vs_id session) (all_verifications st) overall
                 in (calls st @ [SettleCall (vs_id session) (all_verifications st) overall],
                     Inr (session\<lparr>settlement := Some settlement\<rparr>)))))"

subsection \<open>Streaming mode: \<open>run_verification_streaming\<close>\<close>

text \<open>
  The generator is modelled by the list of the events it yields until it ends, the log, and
  the exception that ended it, if one did. The \<open>asyncio.sleep\<close> pauses change none of these.
\<close>

definition agent_quote :: "Claim \<Rightarrow> AgentAssessment \<Rightarrow> WSEvent" where
  "agent_quote c a =
     \<lparr>ev_type = AGENT_QUOTE,
      ev_data = AgentQuoteData (c_id c) (agent_name a) (position a) (confidence a) (summary a)
                  (length (findings a))\<rparr>"

definition risk_update :: "Claim \<Rightarrow> ClaimVerification \<Rightarrow> WSEvent" where
  "risk_update c v =
     \<lparr>ev_type = RISK_UPDATE,
      ev_data = RiskUpdateData (c_id c) (risk_score v) (verdict v) (action v) (rationale v)\<rparr>"

text \<open>
  \<open>if claim.id not in all_assessments: all_assessments[claim.id] = []\<close> followed by
  \<open>all_assessments[claim.id].append(assessment)\<close>.
\<close>

definition append_assessment :: "string \<Rightarrow> AgentAssessment \<Rightarrow> AssessmentDict \<Rightarrow> AssessmentDict" where
  "append_assessment k a d =
     (let d1 = (if map_of d k = None then AList.update k [] d else d)
      in case map_of d1 k of
           Some as \<Rightarrow> AList.update k (as @ [a]) d1
         | None \<Rightarrow> d1)"

text \<open>
  The loop \<open>for agent in ALL_AGENTS\<close>, over the agents paired with their positions. The
  \<open>await agent.verify(claim, context)\<close> is not inside a \<open>try\<close>: what the verifier raises
  leaves the generator.
\<close>

fun agent_loop ::
  "Claim list \<Rightarrow> string \<Rightarrow> Claim \<Rightarrow> (nat \<times> Verifier) list \<Rightarrow> LoopState
     \<Rightarrow> LoopState \<times> error option" where
  "agent_loop cs dmn c [] st = (st, None)"
| "agent_loop cs dmn c ((i, agent) # rest) st =
     (let ctx = make_context cs c (all_assessments st) dmn;
          st1 = st\<lparr>calls := calls st @ [VerifyCall i c ctx]\<rparr>
      in case agent c ctx of
           Inl e \<Rightarrow> (st1, Some e)
         | Inr assessment \<Rightarrow>
             (let st2 = st1\<lparr>events := events st1 @ [agent_quote c assessment]\<rparr>;
                  st3 = st2\<lparr>all_assessments :=
                             append_assessment (c_id c) assessment (all_assessments st2)\<rparr>
              in agent_loop cs dmn c rest st3))"

fun stream_loop ::
  "Env \<Rightarrow> Claim list \<Rightarrow> string \<Rightarrow> Claim list \<Rightarrow> LoopState \<Rightarrow> LoopState \<times> error option" where
  "stream_loop env cs dmn [] st = (st, None)"
| "stream_loop env cs dmn (c # rest) st =
     (case agent_loop cs dmn c (enumerate 0 (ALL_AGENTS env)) st of
        (st1, Some e) \<Rightarrow> (st1, Some e)
      | (st1, None) \<Rightarrow>
          (case map_of (all_assessments st1) (c_id c) of
             None \<Rightarrow> (st1, Some KeyError)
           | Some as \<Rightarrow>
               (case aggregate_risk (config env) c as of
                  Inl e \<Rightarrow> (st1, Some e)
                | Inr verification \<Rightarrow>
                    stream_loop env cs dmn rest
                      (st1\<lparr>all_verifications := all_verifications st1 @ [verification],
                           events := events st1 @ [risk_update c verification]\<rparr>))))"

definition run_verification_streaming ::
  "Env \<Rightarrow> string \<Rightarrow> string \<Rightarrow> string \<Rightarrow> WSEvent list \<times> Effect list \<times> error option" where
  "run_verification_streaming env p response dmn =
     (let sid = new_session_id env;
          created = \<lparr>ev_type = SESSION_CREATED, ev_data = SessionCreatedData sid p\<rparr>;
          cs = extract_claims env response dmn;
          extracted = \<lparr>ev_type = CLAIMS_EXTRACTED,
                       ev_data = ClaimsExtractedData
                                   (map (\<lambda>c. (c_id c, c_text c, c_type c, severity c)) cs)\<rparr>
      in if cs = [] then
           ([created, extracted,
             \<lparr>ev_type = ACTION, ev_data = ActionData ''ALLOW'' ''No verifiable claims found.''\<rparr>],
            [], None)
         else
           (case stream_loop env cs dmn cs (initial_state [created, extracted]) of
              (st, Some e) \<Rightarrow> (events st, calls st, Some e)
            | (st, None) \<Rightarrow>
                (let overall = determine_overall_action (all_verifications st);
                     s = settle env sid (all_verifications st) overall
                 in (events st @
                       [\<lparr>ev_type = SETTLEMENT,
                         ev_data = SettlementData sid (s_oracle s) (s_confidence s) (s_summary s)
                                     (evidence_supporting s) (evidence_contradicting s)
                                     (evidence_neutral s) (recommendation s) overall\<rparr>],
                     calls st @ [SettleCall sid (all_verifications st) overall],
                     None))))"

section \<open>The aggregation rules as the specification words them\<close>

text \<open>
  These definitions follow the specification's sentences (section 4.2, steps 2 to 7), not
  the code; the theorems below compare them with the functions above.
\<close>

definition spec_truth_probability :: "AgentAssessment \<Rightarrow> real" where
  "spec_truth_probability a =
     (case position a of LONG \<Rightarrow> confidence a | SHORT \<Rightarrow> 1 - confidence a)"

definition spec_reliability :: "string \<Rightarrow> real" where
  "spec_reliability name =
     (if name = ''NumericVerifier'' then 1
      else if name = ''RetrieverAgent'' then 9 / 10
      else 8 / 10)"

definition spec_mean :: "real list \<Rightarrow> real" where
  "spec_mean xs = sum_list xs / real (length xs)"

definition spec_evidence_quality :: "AgentAssessment \<Rightarrow> real" where
  "spec_evidence_quality a =
     (if findings a = [] then 1 / 2
      else 7 / 10 + 3 / 10 * spec_mean (map relevance (findings a)))"

definition spec_weight :: "AgentAssessment \<Rightarrow> real" where
  "spec_weight a = spec_reliability (agent_name a) * spec_evidence_quality a"

definition spec_weighted_mean :: "AgentAssessment list \<Rightarrow> real" where
  "spec_weighted_mean as =
     (\<Sum>a\<leftarrow>as. spec_truth_probability a * spec_weight a) / (\<Sum>a\<leftarrow>as. spec_weight a)"

definition spec_multiplier :: "Severity \<Rightarrow> real" where
  "spec_multiplier sev =
     (case sev of CRITICAL \<Rightarrow> 12 / 10 | HIGH \<Rightarrow> 11 / 10 | MED \<Rightarrow> 1 | LOW \<Rightarrow> 85 / 100)"

definition spec_allow_floor :: "Config \<Rightarrow> Severity \<Rightarrow> real" where
  "spec_allow_floor cfg sev = min (RISK_THRESHOLD_ALLOW cfg * spec_multiplier sev) (95 / 100)"

definition spec_rewrite_floor :: "Config \<Rightarrow> Severity \<Rightarrow> real" where
  "spec_rewrite_floor cfg sev =
     min (RISK_THRESHOLD_REWRITE cfg * spec_multiplier sev) (spec_allow_floor cfg sev - 5 / 100)"

definition spec_minority_share :: "AgentAssessment list \<Rightarrow> real" where
  "spec_minority_share as =
     real (min (length (filter (\<lambda>a. position a = LONG) as))
               (length (filter (\<lambda>a. position a = SHORT) as)))
       / real (length as)"

text \<open>The penalty that step 2 of \<open>aggregate_risk\<close> applies; 0 when it applies none.\<close>

definition disagreement_penalty :: "AgentAssessment list \<Rightarrow> real" where
  "disagreement_penalty as =
     (let positions = map position as;
          long_count = count_list positions LONG;
          short_count = count_list positions SHORT
      in if long_count > 0 \<and> short_count > 0
         then real (min long_count short_count) / real (length positions) * 0.15
         else 0)"

text \<open>The orders of the monotonicity property: severity, and strictness of the action.\<close>

fun severity_rank :: "Severity \<Rightarrow> nat" where
  "severity_rank LOW = 0"
| "severity_rank MED = 1"
| "severity_rank HIGH = 2"
| "severity_rank CRITICAL = 3"

fun strictness :: "RiskAction \<Rightarrow> nat" where
  "strictness ALLOW = 0"
| "strictness REWRITE = 1"
| "strictness BLOCK = 2"


definition score_of :: "error + ClaimVerification \<Rightarrow> real option" where
  "score_of r = (case r of Inl e \<Rightarrow> None | Inr v \<Rightarrow> Some (risk_score v))"

section \<open>Example inputs\<close>

definition example_claim :: Claim where
  "example_claim =
     \<lparr>c_id = ''CLM-001'', c_text = ''Revenue grew 28% to $2.19 billion.'', c_type = NUMERIC,
      severity = MED, source_text = ''Revenue grew 28% to $2.19 billion.''\<rparr>"

definition example_finding :: "real \<Rightarrow> Finding" where
  "example_finding r =
     \<lparr>f_type = CONFIRMED, f_text = ''No contradicting data found in indexed sources.'',
      source = ''Structured data scan'', relevance = r\<rparr>"

definition example_assessment ::
  "string \<Rightarrow> AgentSide \<Rightarrow> real \<Rightarrow> Finding list \<Rightarrow> AgentAssessment" where
  "example_assessment name side conf fs =
     \<lparr>agent_name = name, claim_id = ''CLM-001'', position = side, confidence = conf,
      summary = ''checked'', findings = fs, latency_ms = 0\<rparr>"

definition unanimous_true :: "AgentAssessment list" where
  "unanimous_true =
     [example_assessment ''NumericVerifier'' LONG (9 / 10) [example_finding (9 / 10)],
      example_assessment ''RetrieverAgent'' LONG (9 / 10) [example_finding (9 / 10)],
      example_assessment ''ConsistencyBot'' LONG (9 / 10) [example_finding (9 / 10)]]"

text \<open>
  Two verifiers, mean confidence 0.6 in both scenarios: one unanimous, one split one
  believes-true against one believes-false.
\<close>

definition widening_unanimous :: "AgentAssessment list" where
  "widening_unanimous =
     [example_assessment ''NumericVerifier'' LONG (6 / 10) [],
      example_assessment ''RetrieverAgent'' LONG (6 / 10) []]"

definition widening_split :: "AgentAssessment list" where
  "widening_split =
     [example_assessment ''NumericVerifier'' LONG (9 / 10) [],
      example_assessment ''RetrieverAgent'' SHORT (3 / 10) []]"

definition example_verification :: "RiskAction \<Rightarrow> Severity \<Rightarrow> ClaimVerification" where
  "example_verification act sev =
     \<lparr>claim = example_claim\<lparr>severity := sev\<rparr>, risk_score = 1 / 2, verdict = UNCERTAIN,
      action = act, rationale = ''checked'', assessments = []\<rparr>"

definition example_settle :: "string \<Rightarrow> ClaimVerification list \<Rightarrow> RiskAction \<Rightarrow> Settlement" where
  "example_settle sid vs act =
     \<lparr>session_id = sid, s_oracle = ''Sphinx Reasoning Engine'', s_confidence = 75 / 100,
      s_summary = ''1 claim(s) require further review.'', evidence_supporting = 0,
      evidence_contradicting = 0, evidence_neutral = 0,
      recommendation = ''Rewrite flagged claims with verified data.''\<rparr>"

definition steady_verifier :: "string \<Rightarrow> Verifier" where
  "steady_verifier name c ctx =
     Inr \<lparr>agent_name = name, claim_id = c_id c, position = LONG, confidence = 65 / 100,
          summary = ''No contradictions found in available structured data.'', findings = [],
          latency_ms = 0\<rparr>"

definition failing_verifier :: Verifier where
  "failing_verifier c ctx = Inl (VerifierError ''connection refused'')"

definition example_env :: "Claim list \<Rightarrow> Verifier list \<Rightarrow> Env" where
  "example_env cs agents =
     \<lparr>config = default_config, extract_claims = (\<lambda>response dmn. cs), ALL_AGENTS = agents,
      settle = example_settle, new_session_id = ''SES-0000AAAA''\<rparr>"

section \<open>Observations and inputs for the orchestrator\<close>

text \<open>
  Every assessment a verifier returns was built by the constructor of \<open>AgentAssessment\<close>
  and satisfies its constraints.
\<close>

definition sound_verifiers :: "Env \<Rightarrow> bool" where
  "sound_verifiers env =
     list_all (\<lambda>agent. \<forall>c ctx a. agent c ctx = Inr a \<longrightarrow> valid_assessment a) (ALL_AGENTS env)"

text \<open>
  What a logged verifier call saw: the position of the agent, the id of the claim being
  verified and, for each key of \<open>other_assessments\<close>, the names of the agents whose
  assessments are stored under it.
\<close>

definition seen_by :: "Effect \<Rightarrow> (nat \<times> string \<times> (string \<times> string list) list) option" where
  "seen_by e =
     (case e of
        VerifyCall i c ctx \<Rightarrow>
          Some (i, c_id c, map (\<lambda>(k, as). (k, map agent_name as)) (other_assessments ctx))
      | SettleCall sid vs act \<Rightarrow> None)"

text \<open>
  What a batch run returned: per verification the names of the agents whose assessments
  were aggregated, the overall action, and whether a settlement is attached.
\<close>

definition session_summary ::
  "error + VerificationSession \<Rightarrow> error + (string list list \<times> RiskAction option \<times> bool)" where
  "session_summary r =
     (case r of
        Inl e \<Rightarrow> Inl e
      | Inr s \<Rightarrow> Inr (map (\<lambda>v. map agent_name (assessments v)) (verifications s),
                       overall_action s, settlement s \<noteq> None))"

definition second_claim :: Claim where
  "second_claim =
     \<lparr>c_id = ''CLM-002'', c_text = ''Operating margins expanded to 34.2%.'', c_type = NUMERIC,
      severity = HIGH, source_text = ''Operating margins expanded to 34.2%.''\<rparr>"

text \<open>One claim; the second of three verifiers raises.\<close>

definition crash_env :: Env where
  "crash_env =
     example_env [example_claim]
       [steady_verifier ''NumericVerifier'', failing_verifier, steady_verifier ''ConsistencyBot'']"

text \<open>Two claims with distinct ids; three verifiers that all return.\<close>

definition two_claim_env :: Env where
  "two_claim_env =
     example_env [example_claim, second_claim]
       [steady_verifier ''NumericVerifier'', steady_verifier ''RetrieverAgent'',
        steady_verifier ''ConsistencyBot'']"

section \<open>Properties of the risk engine\<close>

subsection \<open>The weighted mean\<close>

lemma weigh_sums:
  "weigh as (s, t) =
     (s + (\<Sum>a\<leftarrow>as. truth_prob a * effective_weight a), t + (\<Sum>a\<leftarrow>as. effective_weight a))"
  by (induction as arbitrary: s t) (simp_all add: algebra_simps)

lemma truth_prob_spec: "truth_prob a = spec_truth_probability a"
  by (cases "position a") (simp_all add: truth_prob_def spec_truth_probability_def)

lemma evidence_weight_spec: "evidence_weight a = spec_evidence_quality a"
  by (simp add: evidence_weight_def spec_evidence_quality_def spec_mean_def Let_def)

lemma effective_weight_spec: "effective_weight a = spec_weight a"
  by (simp add: effective_weight_def spec_weight_def evidence_weight_spec dict_get_def
      AGENT_WEIGHTS_def spec_reliability_def)

lemma sum_list_relevance_bounds:
  "list_all valid_finding fs \<Longrightarrow>
     0 \<le> sum_list (map relevance fs) \<and> sum_list (map relevance fs) \<le> real (length fs)"
  by (induction fs) (auto simp: valid_finding_def)

lemma spec_mean_relevance_bounds:
  assumes "list_all valid_finding fs" and "fs \<noteq> []"
  shows "0 \<le> spec_mean (map relevance fs)" and "spec_mean (map relevance fs) \<le> 1"
proof -
  have n: "0 < real (length fs)" using assms(2) by simp
  from sum_list_relevance_bounds [OF assms(1)]
  show "0 \<le> spec_mean (map relevance fs)" and "spec_mean (map relevance fs) \<le> 1"
    using n by (simp_all add: spec_mean_def divide_le_eq)
qed

lemma spec_evidence_quality_bounds:
  assumes "valid_assessment a"
  shows "1 / 2 \<le> spec_evidence_quality a" and "spec_evidence_quality a \<le> 1"
    and "findings a \<noteq> [] \<Longrightarrow> 7 / 10 \<le> spec_evidence_quality a"
proof -
  have fs: "list_all valid_finding (findings a)"
    using assms by (simp add: valid_assessment_def)
  show "1 / 2 \<le> spec_evidence_quality a"
    using spec_mean_relevance_bounds [OF fs]
    by (cases "findings a = []") (simp_all add: spec_evidence_quality_def)
  show "spec_evidence_quality a \<le> 1"
    using spec_mean_relevance_bounds [OF fs]
    by (cases "findings a = []") (simp_all add: spec_evidence_quality_def)
  show "findings a \<noteq> [] \<Longrightarrow> 7 / 10 \<le> spec_evidence_quality a"
    using spec_mean_relevance_bounds [OF fs]
    by (simp add: spec_evidence_quality_def)
qed

lemma spec_reliability_pos: "8 / 10 \<le> spec_reliability n"
  by (simp add: spec_reliability_def)

lemma spec_weight_pos:
  assumes "valid_assessment a"
  shows "0 < spec_weight a"
proof -
  have "0 < spec_reliability (agent_name a)"
    using spec_reliability_pos [of "agent_name a"] by linarith
  moreover have "0 < spec_evidence_quality a"
    using spec_evidence_quality_bounds(1) [OF assms] by linarith
  ultimately show ?thesis by (simp add: spec_weight_def)
qed

lemma sum_spec_weight_pos:
  "as \<noteq> [] \<Longrightarrow> list_all valid_assessment as \<Longrightarrow> 0 < (\<Sum>a\<leftarrow>as. spec_weight a)"
proof (induction as)
  case Nil
  then show ?case by simp
next
  case (Cons a as)
  have a: "0 < spec_weight a" using Cons.prems(2) by (simp add: spec_weight_pos)
  show ?case
  proof (cases "as = []")
    case True
    then show ?thesis using a by simp
  next
    case False
    then have "0 < (\<Sum>a\<leftarrow>as. spec_weight a)" using Cons by simp
    then show ?thesis using a by simp
  qed
qed

lemma weighted_risk_eq:
  assumes "as \<noteq> []" and "list_all valid_assessment as"
  shows "weighted_risk as = spec_weighted_mean as"
  using sum_spec_weight_pos [OF assms]
  by (simp add: weighted_risk_def weigh_sums spec_weighted_mean_def truth_prob_spec
      effective_weight_spec)

lemma spec_truth_probability_bounds:
  "valid_assessment a \<Longrightarrow> 0 \<le> spec_truth_probability a \<and> spec_truth_probability a \<le> 1"
  by (cases "position a") (simp_all add: spec_truth_probability_def valid_assessment_def)

lemma weighted_sum_bounds:
  "list_all valid_assessment as \<Longrightarrow>
     0 \<le> (\<Sum>a\<leftarrow>as. spec_truth_probability a * spec_weight a) \<and>
     (\<Sum>a\<leftarrow>as. spec_truth_probability a * spec_weight a) \<le> (\<Sum>a\<leftarrow>as. spec_weight a)"
proof (induction as)
  case Nil
  then show ?case by simp
next
  case (Cons a as)
  have v: "valid_assessment a" using Cons.prems by simp
  have w: "0 < spec_weight a" using v by (rule spec_weight_pos)
  have p: "0 \<le> spec_truth_probability a" "spec_truth_probability a \<le> 1"
    using spec_truth_probability_bounds [OF v] by simp_all
  have lo: "0 \<le> spec_truth_probability a * spec_weight a" using p w by simp
  have hi: "spec_truth_probability a * spec_weight a \<le> spec_weight a"
    using p w by (simp add: mult_left_le_one_le)
  from Cons lo hi show ?case by simp
qed

lemma spec_weighted_mean_bounds:
  assumes "as \<noteq> []" and "list_all valid_assessment as"
  shows "0 \<le> spec_weighted_mean as" and "spec_weighted_mean as \<le> 1"
proof -
  have d: "0 < (\<Sum>a\<leftarrow>as. spec_weight a)" using assms by (rule sum_spec_weight_pos)
  from weighted_sum_bounds [OF assms(2)] d
  show "0 \<le> spec_weighted_mean as" and "spec_weighted_mean as \<le> 1"
    by (simp_all add: spec_weighted_mean_def)
qed

subsection \<open>Disagreement penalty, rounding and thresholds\<close>

lemma count_list_filter: "count_list (map f xs) y = length (filter (\<lambda>x. f x = y) xs)"
  by (induction xs) simp_all

lemma position_partition:
  "length (filter (\<lambda>a. position a = LONG) as) + length (filter (\<lambda>a. position a = SHORT) as)
     = length as"
proof (induction as)
  case Nil
  then show ?case by simp
next
  case (Cons a as)
  then show ?case by (cases "position a") simp_all
qed

lemma disagreement_penalty_spec:
  "disagreement_penalty as =
     (if 0 < length (filter (\<lambda>a. position a = LONG) as) \<and>
         0 < length (filter (\<lambda>a. position a = SHORT) as)
      then spec_minority_share as * (15 / 100) else 0)"
  by (simp add: disagreement_penalty_def spec_minority_share_def count_list_filter Let_def)

lemma spec_minority_share_bounds:
  "0 \<le> spec_minority_share as" "spec_minority_share as \<le> 1 / 2"
proof -
  let ?l = "length (filter (\<lambda>a. position a = LONG) as)"
  let ?s = "length (filter (\<lambda>a. position a = SHORT) as)"
  show "0 \<le> spec_minority_share as" by (simp add: spec_minority_share_def)
  have "2 * min ?l ?s \<le> length as" using position_partition [of as] by linarith
  then have "2 * real (min ?l ?s) \<le> real (length as)"
    by (metis of_nat_le_iff of_nat_mult of_nat_numeral)
  then show "spec_minority_share as \<le> 1 / 2"
    by (cases "as = []") (simp_all add: spec_minority_share_def divide_le_eq)
qed

lemma disagreement_penalty_bounds:
  "0 \<le> disagreement_penalty as" "disagreement_penalty as \<le> 75 / 1000"
  using spec_minority_share_bounds [of as]
  by (simp_all add: disagreement_penalty_spec)

lemma final_risk_eq:
  "final_risk as =
     weighted_risk as * (1 - disagreement_penalty as) + 1 / 2 * disagreement_penalty as"
  by (simp add: final_risk_def disagreement_penalty_def Let_def)

lemma final_risk_bounds:
  assumes "as \<noteq> []" and "list_all valid_assessment as"
  shows "0 \<le> final_risk as" and "final_risk as \<le> 1"
proof -
  let ?p = "disagreement_penalty as"
  let ?r = "weighted_risk as"
  have r: "0 \<le> ?r" "?r \<le> 1"
    using spec_weighted_mean_bounds [OF assms] by (simp_all add: weighted_risk_eq [OF assms])
  have p: "0 \<le> ?p" "?p \<le> 1"
    using disagreement_penalty_bounds [of as] by simp_all
  have "0 \<le> ?r * (1 - ?p)" using r p by simp
  then show "0 \<le> final_risk as" using p by (simp add: final_risk_eq)
  have "?r * (1 - ?p) \<le> 1 * (1 - ?p)" using r p by (intro mult_right_mono) simp_all
  then show "final_risk as \<le> 1" using p by (simp add: final_risk_eq)
qed

lemma round_half_even_range:
  assumes "0 \<le> x" and "x \<le> of_int n"
  shows "0 \<le> round_half_even x" and "round_half_even x \<le> n"
proof -
  have f0: "0 \<le> \<lfloor>x\<rfloor>" using assms(1) by simp
  show "0 \<le> round_half_even x"
    using f0 by (simp add: round_half_even_def Let_def)
  have fn: "\<lfloor>x\<rfloor> \<le> n" using assms(2) by (simp add: floor_le_iff)
  show "round_half_even x \<le> n"
  proof (cases "x - of_int \<lfloor>x\<rfloor> < 1 / 2")
    case True
    then show ?thesis using fn by (simp add: round_half_even_def Let_def)
  next
    case False
    then have "of_int \<lfloor>x\<rfloor> < x" by linarith
    then have "of_int \<lfloor>x\<rfloor> < (of_int n :: real)" using assms(2) by linarith
    then have "\<lfloor>x\<rfloor> < n" by simp
    then show ?thesis by (simp add: round_half_even_def Let_def)
  qed
qed

lemma py_round_unit:
  assumes "0 \<le> x" and "x \<le> 1"
  shows "0 \<le> py_round x 4" and "py_round x 4 \<le> 1"
proof -
  have a: "0 \<le> x * 10 ^ 4" using assms(1) by simp
  have b: "x * 10 ^ 4 \<le> of_int 10000" using assms(2) by simp
  have lo: "0 \<le> round_half_even (x * 10 ^ 4)" by (rule round_half_even_range(1) [OF a b])
  have hi: "round_half_even (x * 10 ^ 4) \<le> 10000" by (rule round_half_even_range(2) [OF a b])
  show "0 \<le> py_round x 4" using lo by (simp add: py_round_def)
  have "(of_int (round_half_even (x * 10 ^ 4)) :: real) \<le> of_int 10000"
    using hi by (simp only: of_int_le_iff)
  then show "py_round x 4 \<le> 1" by (simp add: py_round_def)
qed

lemma spec_multiplier_eq: "dict_get SEVERITY_MULTIPLIERS sev (1.0::real) = spec_multiplier sev"
  by (cases sev) (simp_all add: dict_get_def SEVERITY_MULTIPLIERS_def spec_multiplier_def)

lemma adjusted_allow_spec: "adjusted_allow cfg sev = spec_allow_floor cfg sev"
  using spec_multiplier_eq [of sev]
  by (simp add: adjusted_allow_def spec_allow_floor_def)

lemma adjusted_rewrite_spec: "adjusted_rewrite cfg sev = spec_rewrite_floor cfg sev"
  using spec_multiplier_eq [of sev]
  by (simp add: adjusted_rewrite_def spec_rewrite_floor_def adjusted_allow_spec)

lemma aggregate_risk_nonempty:
  assumes "as \<noteq> []" and "list_all valid_assessment as"
  shows "aggregate_risk cfg c as =
     Inr \<lparr>claim = c, risk_score = py_round (final_risk as) 4,
          verdict = fst (decide cfg (severity c) (final_risk as)),
          action = snd (decide cfg (severity c) (final_risk as)),
          rationale = generate_rationale c as (final_risk as)
             (fst (decide cfg (severity c) (final_risk as)))
             (snd (decide cfg (severity c) (final_risk as))),
          assessments = as\<rparr>"
  using assms(1) py_round_unit [OF final_risk_bounds [OF assms]]
  by (simp add: aggregate_risk_def new_ClaimVerification_def Let_def split_beta)




subsection \<open>Overall action and severity\<close>

text \<open>
  Claim C4. With an empty list of assessments \<open>aggregate_risk\<close> returns, for every claim
  and configuration, verdict UNCERTAIN, action BLOCK, risk score 0.50 and the rationale
  ``No agent assessments available.''; no score is computed.
\<close>

theorem no_assessments:
  "aggregate_risk cfg c [] =
     Inr \<lparr>claim = c, risk_score = 50 / 100, verdict = UNCERTAIN, action = BLOCK,
          rationale = ''No agent assessments available.'', assessments = []\<rparr>"
  by (simp add: aggregate_risk_def new_ClaimVerification_def)

lemma severe_block_iff:
  "severe_block vs =
     (\<exists>v\<in>set vs. action v = BLOCK \<and> (severity (claim v) = CRITICAL \<or> severity (claim v) = HIGH))"
  by (induction vs) auto

text \<open>
  Claim C5. \<open>determine_overall_action\<close> returns BLOCK for the empty list; otherwise BLOCK
  if some verification of severity CRITICAL or HIGH has action BLOCK; otherwise REWRITE if
  some verification has action REWRITE; otherwise REWRITE if some verification has action
  BLOCK; otherwise ALLOW.
\<close>

theorem overall_action_precedence:
  "determine_overall_action vs =
     (if vs = [] then BLOCK
      else if (\<exists>v\<in>set vs. action v = BLOCK \<and> severity (claim v) \<in> {CRITICAL, HIGH}) then BLOCK
      else if (\<exists>v\<in>set vs. action v = REWRITE) then REWRITE
      else if (\<exists>v\<in>set vs. action v = BLOCK) then REWRITE
      else ALLOW)"
proof -
  have m: "\<And>a. (a \<in> action ` set vs) = (\<exists>v\<in>set vs. action v = a)"
    by (auto simp: image_iff)
  show ?thesis
    unfolding determine_overall_action_def severe_block_iff Let_def set_map m
    by auto
qed

lemma overall_action_pairs:
  "determine_overall_action vs =
     (let P = (\<lambda>v. (action v, severity (claim v))) ` set vs
      in if P = {} then BLOCK
         else if (BLOCK, CRITICAL) \<in> P \<or> (BLOCK, HIGH) \<in> P then BLOCK
         else if REWRITE \<in> fst ` P then REWRITE
         else if BLOCK \<in> fst ` P then REWRITE
         else ALLOW)"
proof -
  have m: "\<And>a. (a \<in> action ` set vs) = (\<exists>v\<in>set vs. action v = a)"
    by (auto simp: image_iff)
  have f: "\<And>a. (a \<in> fst ` (\<lambda>v. (action v, severity (claim v))) ` set vs) =
                (\<exists>v\<in>set vs. action v = a)"
    by (auto simp: image_iff)
  have p: "\<And>a s. ((a, s) \<in> (\<lambda>v. (action v, severity (claim v))) ` set vs) =
                (\<exists>v\<in>set vs. action v = a \<and> severity (claim v) = s)"
    by (auto simp: image_iff)
  have sb: "severe_block vs = ((\<exists>v\<in>set vs. action v = BLOCK \<and> severity (claim v) = CRITICAL) \<or>
                              (\<exists>v\<in>set vs. action v = BLOCK \<and> severity (claim v) = HIGH))"
    unfolding severe_block_iff by blast
  have e: "((\<lambda>v. (action v, severity (claim v))) ` set vs = {}) = (vs = [])"
    by simp
  show ?thesis
    unfolding determine_overall_action_def Let_def set_map f p m sb e ..
qed

text \<open>
  Claim C10. \<open>determine_overall_action\<close> depends only on the multiset of the pairs
  (action, severity) of the verifications: two lists with the same multiset of pairs, in
  particular a list and any permutation of it, get the same overall action.
\<close>

theorem overall_action_order_invariant:
  assumes "mset (map (\<lambda>v. (action v, severity (claim v))) vs) =
           mset (map (\<lambda>v. (action v, severity (claim v))) ws)"
  shows "determine_overall_action vs = determine_overall_action ws"
proof -
  have "set (map (\<lambda>v. (action v, severity (claim v))) vs) =
        set (map (\<lambda>v. (action v, severity (claim v))) ws)"
    using assms by (rule mset_eq_setD)
  then have "(\<lambda>v. (action v, severity (claim v))) ` set vs =
             (\<lambda>v. (action v, severity (claim v))) ` set ws"
    by simp
  then show ?thesis by (simp only: overall_action_pairs)
qed

lemma spec_multiplier_mono:
  "severity_rank s1 \<le> severity_rank s2 \<Longrightarrow> spec_multiplier s1 \<le> spec_multiplier s2"
  by (cases s1; cases s2) (simp_all add: spec_multiplier_def)

lemma spec_allow_floor_mono:
  assumes "0 \<le> RISK_THRESHOLD_ALLOW cfg" and "severity_rank s1 \<le> severity_rank s2"
  shows "spec_allow_floor cfg s1 \<le> spec_allow_floor cfg s2"
proof -
  have "RISK_THRESHOLD_ALLOW cfg * spec_multiplier s1 \<le> RISK_THRESHOLD_ALLOW cfg * spec_multiplier s2"
    using assms spec_multiplier_mono by (intro mult_left_mono) simp_all
  then show ?thesis by (simp add: spec_allow_floor_def min_le_iff_disj)
qed

lemma spec_rewrite_floor_mono:
  assumes "0 \<le> RISK_THRESHOLD_ALLOW cfg" and "0 \<le> RISK_THRESHOLD_REWRITE cfg"
    and "severity_rank s1 \<le> severity_rank s2"
  shows "spec_rewrite_floor cfg s1 \<le> spec_rewrite_floor cfg s2"
proof -
  have a: "RISK_THRESHOLD_REWRITE cfg * spec_multiplier s1 \<le> RISK_THRESHOLD_REWRITE cfg * spec_multiplier s2"
    using assms spec_multiplier_mono by (intro mult_left_mono) simp_all
  have b: "spec_allow_floor cfg s1 \<le> spec_allow_floor cfg s2"
    using assms(1,3) by (rule spec_allow_floor_mono)
  from a b show ?thesis by (simp add: spec_rewrite_floor_def min_le_iff_disj)
qed

lemma spec_multiplier_pos: "0 < spec_multiplier s"
  by (cases s) (simp_all add: spec_multiplier_def)

lemma decide_mono:
  assumes "0 \<le> r" and "severity_rank s1 \<le> severity_rank s2"
  shows "strictness (snd (decide cfg s1 r)) \<le> strictness (snd (decide cfg s2 r))"
proof (cases "0 \<le> RISK_THRESHOLD_ALLOW cfg")
  case False
  then have "RISK_THRESHOLD_ALLOW cfg * spec_multiplier s1 < 0"
    using spec_multiplier_pos [of s1] by (simp add: mult_less_0_iff)
  then have "spec_allow_floor cfg s1 \<le> r"
    using assms(1) by (simp add: spec_allow_floor_def min_le_iff_disj)
  then show ?thesis
    by (simp add: decide_def adjusted_allow_spec)
next
  case True
  note al = spec_allow_floor_mono [OF True assms(2)]
  show ?thesis
  proof (cases "0 \<le> RISK_THRESHOLD_REWRITE cfg")
    case rw: True
    show ?thesis
      using al spec_rewrite_floor_mono [OF True rw assms(2)]
      by (simp add: decide_def adjusted_allow_spec adjusted_rewrite_spec)
  next
    case False
    have "\<And>s. spec_rewrite_floor cfg s \<le> r"
    proof -
      fix s
      have "RISK_THRESHOLD_REWRITE cfg * spec_multiplier s < 0"
        using False spec_multiplier_pos [of s] by (simp add: mult_less_0_iff)
      then show "spec_rewrite_floor cfg s \<le> r"
        using assms(1) by (simp add: spec_rewrite_floor_def min_le_iff_disj)
    qed
    then show ?thesis
      using al by (simp add: decide_def adjusted_allow_spec adjusted_rewrite_spec)
  qed
qed

text \<open>
  Claim C6. With the assessments and the two configured thresholds fixed, whatever their
  values, raising only the severity of the claim, in the order LOW, MED, HIGH, CRITICAL,
  never gives a more lenient action, in the order ALLOW, REWRITE, BLOCK: \<open>aggregate_risk\<close>
  returns a verification at both severities and the action at the higher severity is at
  least as strict.
\<close>

theorem severity_monotone:
  assumes "list_all valid_assessment as"
    and "severity_rank s1 \<le> severity_rank s2"
  shows "\<exists>v1 v2. aggregate_risk cfg (c\<lparr>severity := s1\<rparr>) as = Inr v1 \<and>
                 aggregate_risk cfg (c\<lparr>severity := s2\<rparr>) as = Inr v2 \<and>
                 strictness (action v1) \<le> strictness (action v2)"
proof (cases "as = []")
  case True
  then show ?thesis by (simp add: aggregate_risk_def new_ClaimVerification_def)
next
  case False
  show ?thesis
    using decide_mono [OF final_risk_bounds(1) [OF False assms(1)] assms(2), of cfg]
    by (simp add: aggregate_risk_nonempty [OF False assms(1)])
qed

text \<open>
  Claim C2. For a non-empty list of assessments the risk score before the disagreement
  penalty, computed by the accumulator loop, is the weighted mean of the truth
  probabilities: the confidence of an assessment that believes the claim true, one minus
  the confidence of one that believes it false, each weighted by the reliability weight of
  its verifier times the evidence-quality factor, which is 0.5 without findings and
  0.7 + 0.3 times the mean relevance of the findings otherwise, a value between 0.7
  and 1.0.
\<close>

theorem weighted_risk_weighted_mean:
  assumes "as \<noteq> []" and "list_all valid_assessment as"
  shows "weighted_risk as = spec_weighted_mean as \<and>
         (\<forall>a\<in>set as. findings a \<noteq> [] \<longrightarrow>
             7 / 10 \<le> spec_evidence_quality a \<and> spec_evidence_quality a \<le> 1)"
proof -
  have "\<forall>a\<in>set as. valid_assessment a" using assms(2) by (simp add: list_all_iff)
  then have "\<forall>a\<in>set as. findings a \<noteq> [] \<longrightarrow>
             7 / 10 \<le> spec_evidence_quality a \<and> spec_evidence_quality a \<le> 1"
    using spec_evidence_quality_bounds by blast
  then show ?thesis using weighted_risk_eq [OF assms] by simp
qed

subsection \<open>Disagreement widening\<close>

lemmas risk_eval =
  final_risk_def weighted_risk_def effective_weight_def dict_get_def AGENT_WEIGHTS_def
  evidence_weight_def truth_prob_def disagreement_penalty_def Let_def example_assessment_def
  example_finding_def

lemma pair_weighted_mean:
  "spec_weighted_mean [a, b] =
     (spec_truth_probability a * spec_weight a + spec_truth_probability b * spec_weight b)
       / (spec_weight a + spec_weight b)"
  by (simp add: spec_weighted_mean_def)

lemma unanimous_pair:
  assumes "valid_assessment u1" and "valid_assessment u2"
    and "position u1 = position u2" and "confidence u1 = k" and "confidence u2 = k"
  shows "\<bar>final_risk [u1, u2] - 1 / 2\<bar> = \<bar>k - 1 / 2\<bar>"
proof -
  have w: "0 < spec_weight u1" "0 < spec_weight u2"
    using assms(1,2) by (simp_all add: spec_weight_pos)
  have pen: "disagreement_penalty [u1, u2] = 0"
    using assms(3) by (cases "position u2") (simp_all add: disagreement_penalty_spec)
  have "confidence u2 = confidence u1" using assms(4,5) by simp
  then have tp: "spec_truth_probability u2 = spec_truth_probability u1"
    using assms(3) by (cases "position u2") (simp_all add: spec_truth_probability_def)
  have "weighted_risk [u1, u2] = spec_weighted_mean [u1, u2]"
    using assms(1,2) by (intro weighted_risk_eq) simp_all
  also have "\<dots> = spec_truth_probability u1 * (spec_weight u1 + spec_weight u2)
                   / (spec_weight u1 + spec_weight u2)"
    by (simp add: pair_weighted_mean tp algebra_simps)
  also have "\<dots> = spec_truth_probability u1" using w by simp
  finally have "final_risk [u1, u2] = spec_truth_probability u1"
    by (simp add: final_risk_eq pen)
  then show ?thesis
    using assms(4) by (cases "position u1") (simp_all add: spec_truth_probability_def)
qed

lemma split_pair:
  assumes "valid_assessment a1" and "valid_assessment a2"
    and "position a1 \<noteq> position a2" and "confidence a1 = k" and "confidence a2 = k"
    and "k \<noteq> 1 / 2"
  shows "\<bar>final_risk [a1, a2] - 1 / 2\<bar> < \<bar>k - 1 / 2\<bar>"
proof -
  let ?w1 = "spec_weight a1" and ?w2 = "spec_weight a2"
  have w: "0 < ?w1" "0 < ?w2"
    using assms(1,2) by (simp_all add: spec_weight_pos)
  have pen: "disagreement_penalty [a1, a2] = 75 / 1000"
    using assms(3)
    by (cases "position a1"; cases "position a2")
       (simp_all add: disagreement_penalty_spec spec_minority_share_def)
  have wr: "weighted_risk [a1, a2] = spec_weighted_mean [a1, a2]"
    using assms(1,2) by (intro weighted_risk_eq) simp_all
  have fr: "final_risk [a1, a2] - 1 / 2 = 925 / 1000 * (spec_weighted_mean [a1, a2] - 1 / 2)"
    by (simp add: final_risk_eq pen wr algebra_simps)
  have tps: "spec_truth_probability a1 - 1 / 2 = - (spec_truth_probability a2 - 1 / 2)"
    "\<bar>spec_truth_probability a1 - 1 / 2\<bar> = \<bar>k - 1 / 2\<bar>"
    using assms(3,4,5)
    by (cases "position a1"; cases "position a2"; simp add: spec_truth_probability_def)+
  let ?d = "spec_truth_probability a1 - 1 / 2"
  have t2: "spec_truth_probability a2 = 1 / 2 - ?d" using tps(1) by simp
  have "spec_weighted_mean [a1, a2] - 1 / 2 =
          ((1 / 2 + ?d) * ?w1 + (1 / 2 - ?d) * ?w2) / (?w1 + ?w2) - 1 / 2"
    unfolding pair_weighted_mean t2 by simp
  also have "\<dots> = ?d * ((?w1 - ?w2) / (?w1 + ?w2))"
    using w by (simp add: field_simps)
  finally have m: "\<bar>spec_weighted_mean [a1, a2] - 1 / 2\<bar> = \<bar>?d\<bar> * \<bar>(?w1 - ?w2) / (?w1 + ?w2)\<bar>"
    by (simp add: abs_mult)
  have q: "\<bar>(?w1 - ?w2) / (?w1 + ?w2)\<bar> \<le> 1"
    using w by (simp add: abs_le_iff)
  have dpos: "0 < \<bar>?d\<bar>" using tps(2) assms(6) by simp
  have "\<bar>?d\<bar> * \<bar>(?w1 - ?w2) / (?w1 + ?w2)\<bar> \<le> \<bar>?d\<bar> * 1"
    using q by (intro mult_left_mono) simp_all
  then have "\<bar>spec_weighted_mean [a1, a2] - 1 / 2\<bar> \<le> \<bar>?d\<bar>"
    unfolding m by simp
  moreover have "\<bar>final_risk [a1, a2] - 1 / 2\<bar>
                   = 925 / 1000 * \<bar>spec_weighted_mean [a1, a2] - 1 / 2\<bar>"
    unfolding fr abs_mult by simp
  ultimately have "\<bar>final_risk [a1, a2] - 1 / 2\<bar> \<le> 925 / 1000 * \<bar>?d\<bar>"
    by simp
  also have "\<dots> < \<bar>?d\<bar>" using dpos by simp
  finally show ?thesis using tps(2) by simp
qed

text \<open>
  Claim C3, as amended. When at least one assessment believes the claim true and at least
  one believes it false, the final score lies closer to 0.5 than the weighted mean by the
  factor 1 - 0.15 * minority share, where the minority share, the smaller of the two counts
  over the number of assessments, is positive and at most one half; when all assessments
  take the same side the final score is the weighted mean. The minority share is one half
  when the two counts are equal. For two verifiers that all report one and the same
  confidence \<open>k\<close> other than 0.5, in the split scenario and in the unanimous one, the final
  score of the split scenario, before it is rounded, lies strictly closer to 0.5 than that
  of the unanimous scenario.
\<close>

theorem disagreement_pull:
  "(0 < length (filter (\<lambda>a. position a = LONG) as) \<and>
    0 < length (filter (\<lambda>a. position a = SHORT) as) \<longrightarrow>
      final_risk as - 1 / 2
        = (1 - 15 / 100 * spec_minority_share as) * (weighted_risk as - 1 / 2) \<and>
      0 < spec_minority_share as \<and> spec_minority_share as \<le> 1 / 2 \<and>
      (length (filter (\<lambda>a. position a = LONG) as)
         = length (filter (\<lambda>a. position a = SHORT) as) \<longrightarrow>
       spec_minority_share as = 1 / 2)) \<and>
   (length (filter (\<lambda>a. position a = LONG) us) = 0 \<or>
    length (filter (\<lambda>a. position a = SHORT) us) = 0 \<longrightarrow>
      final_risk us = weighted_risk us) \<and>
   (valid_assessment a1 \<and> valid_assessment a2 \<and> valid_assessment u1 \<and> valid_assessment u2 \<and>
    position a1 \<noteq> position a2 \<and> position u1 = position u2 \<and>
    confidence a1 = k \<and> confidence a2 = k \<and> confidence u1 = k \<and> confidence u2 = k \<and>
    k \<noteq> 1 / 2 \<longrightarrow>
      \<bar>final_risk [a1, a2] - 1 / 2\<bar> < \<bar>final_risk [u1, u2] - 1 / 2\<bar>)"
proof (intro conjI impI)
  assume d: "0 < length (filter (\<lambda>a. position a = LONG) as) \<and>
             0 < length (filter (\<lambda>a. position a = SHORT) as)"
  then have p: "disagreement_penalty as = spec_minority_share as * (15 / 100)"
    by (simp add: disagreement_penalty_spec)
  show "final_risk as - 1 / 2
          = (1 - 15 / 100 * spec_minority_share as) * (weighted_risk as - 1 / 2)"
    by (simp add: final_risk_eq p field_simps)
  from d have "as \<noteq> []" by auto
  with d show "0 < spec_minority_share as" by (simp add: spec_minority_share_def)
  show "spec_minority_share as \<le> 1 / 2" by (rule spec_minority_share_bounds)
  show "spec_minority_share as = 1 / 2"
    if e: "length (filter (\<lambda>a. position a = LONG) as)
             = length (filter (\<lambda>a. position a = SHORT) as)"
  proof -
    have "length as = 2 * length (filter (\<lambda>a. position a = SHORT) as)"
      using position_partition [of as] e by simp
    then have "real (length as) = 2 * real (length (filter (\<lambda>a. position a = SHORT) as))"
      by simp
    then show ?thesis using d e by (simp add: spec_minority_share_def)
  qed
next
  assume "length (filter (\<lambda>a. position a = LONG) us) = 0 \<or>
          length (filter (\<lambda>a. position a = SHORT) us) = 0"
  then have "disagreement_penalty us = 0"
    by (auto simp: disagreement_penalty_spec)
  then show "final_risk us = weighted_risk us" by (simp add: final_risk_eq)
next
  assume h: "valid_assessment a1 \<and> valid_assessment a2 \<and> valid_assessment u1 \<and> valid_assessment u2 \<and>
    position a1 \<noteq> position a2 \<and> position u1 = position u2 \<and>
    confidence a1 = k \<and> confidence a2 = k \<and> confidence u1 = k \<and> confidence u2 = k \<and>
    k \<noteq> 1 / 2"
  then have "\<bar>final_risk [a1, a2] - 1 / 2\<bar> < \<bar>k - 1 / 2\<bar>"
    by (intro split_pair) simp_all
  moreover from h have "\<bar>final_risk [u1, u2] - 1 / 2\<bar> = \<bar>k - 1 / 2\<bar>"
    by (intro unanimous_pair) simp_all
  ultimately show "\<bar>final_risk [a1, a2] - 1 / 2\<bar> < \<bar>final_risk [u1, u2] - 1 / 2\<bar>"
    by simp
qed

lemma fr_un: "final_risk widening_unanimous = 6 / 10"
  by (simp add: widening_unanimous_def risk_eval)

lemma fr_sp: "final_risk widening_split = 2973 / 3800"
  by (simp add: widening_split_def risk_eval)

text \<open>
  Claim C3 as stated fails: the two scenarios \<open>widening_unanimous\<close> and
  \<open>widening_split\<close> have the same mean confidence 0.6, and the score of the split
  scenario, 2973/3800 (returned as 0.7824), is farther from 0.5 than the score 0.6 of the
  unanimous one. With every confidence equal to 0.5 both scores are 0.5, so neither is
  strictly closer; and with every confidence equal to 0.50001 both returned scores are
  rounded to 0.5.
\<close>

theorem disagreement_widening_counterexample:
  "(confidence (widening_split ! 0) + confidence (widening_split ! 1)) / 2
     = (confidence (widening_unanimous ! 0) + confidence (widening_unanimous ! 1)) / 2 \<and>
   map position widening_unanimous = [LONG, LONG] \<and>
   map position widening_split = [LONG, SHORT] \<and>
   \<not> \<bar>final_risk widening_split - 1 / 2\<bar> < \<bar>final_risk widening_unanimous - 1 / 2\<bar> \<and>
   score_of (aggregate_risk default_config example_claim widening_split) = Some (7824 / 10000) \<and>
   score_of (aggregate_risk default_config example_claim widening_unanimous) = Some (6 / 10) \<and>
   \<not> \<bar>final_risk [example_assessment ''NumericVerifier'' LONG (1 / 2) [],
                   example_assessment ''RetrieverAgent'' SHORT (1 / 2) []] - 1 / 2\<bar>
     < \<bar>final_risk [example_assessment ''NumericVerifier'' LONG (1 / 2) [],
                    example_assessment ''RetrieverAgent'' LONG (1 / 2) []] - 1 / 2\<bar> \<and>
   score_of (aggregate_risk default_config example_claim
      [example_assessment ''NumericVerifier'' LONG (50001 / 100000) [],
       example_assessment ''RetrieverAgent'' SHORT (50001 / 100000) []]) = Some (1 / 2) \<and>
   score_of (aggregate_risk default_config example_claim
      [example_assessment ''NumericVerifier'' LONG (50001 / 100000) [],
       example_assessment ''RetrieverAgent'' LONG (50001 / 100000) []]) = Some (1 / 2)"
proof -
  have t: "score_of (aggregate_risk default_config example_claim
      [example_assessment ''NumericVerifier'' LONG (50001 / 100000) [],
       example_assessment ''RetrieverAgent'' SHORT (50001 / 100000) []]) = Some (1 / 2) \<and>
   score_of (aggregate_risk default_config example_claim
      [example_assessment ''NumericVerifier'' LONG (50001 / 100000) [],
       example_assessment ''RetrieverAgent'' LONG (50001 / 100000) []]) = Some (1 / 2)"
    by code_simp
  have c: "(confidence (widening_split ! 0) + confidence (widening_split ! 1)) / 2
     = (confidence (widening_unanimous ! 0) + confidence (widening_unanimous ! 1)) / 2"
    by (simp add: widening_split_def widening_unanimous_def example_assessment_def)
  have p: "map position widening_unanimous = [LONG, LONG]"
    "map position widening_split = [LONG, SHORT]"
    by (simp_all add: widening_split_def widening_unanimous_def example_assessment_def)
  have f: "\<not> \<bar>final_risk widening_split - 1 / 2\<bar> < \<bar>final_risk widening_unanimous - 1 / 2\<bar>"
    by (simp add: fr_un fr_sp)
  have vs: "list_all valid_assessment widening_split"
    by (simp add: widening_split_def example_assessment_def valid_assessment_def)
  have vu: "list_all valid_assessment widening_unanimous"
    by (simp add: widening_unanimous_def example_assessment_def valid_assessment_def)
  have ns: "widening_split \<noteq> []" by (simp add: widening_split_def)
  have nu: "widening_unanimous \<noteq> []" by (simp add: widening_unanimous_def)
  have rs: "py_round (2973 / 3800) 4 = 489 / 625"
    by (simp add: py_round_def round_half_even_def)
  have ru: "py_round (3 / 5) 4 = 3 / 5"
    by (simp add: py_round_def round_half_even_def)
  have ss: "score_of (aggregate_risk default_config example_claim widening_split)
              = Some (7824 / 10000)"
    by (simp add: aggregate_risk_nonempty [OF ns vs] score_of_def fr_sp rs)
  have su: "score_of (aggregate_risk default_config example_claim widening_unanimous)
              = Some (6 / 10)"
    by (simp add: aggregate_risk_nonempty [OF nu vu] score_of_def fr_un ru)
  have h: "\<not> \<bar>final_risk [example_assessment ''NumericVerifier'' LONG (1 / 2) [],
                   example_assessment ''RetrieverAgent'' SHORT (1 / 2) []] - 1 / 2\<bar>
     < \<bar>final_risk [example_assessment ''NumericVerifier'' LONG (1 / 2) [],
                    example_assessment ''RetrieverAgent'' LONG (1 / 2) []] - 1 / 2\<bar>"
    by (simp add: risk_eval)
  from c p f ss su h t show ?thesis by blast
qed

subsection \<open>Instances\<close>


lemma valid_unanimous_true: "list_all valid_assessment unanimous_true"
  by (simp add: unanimous_true_def example_assessment_def example_finding_def
      valid_assessment_def valid_finding_def)

lemma valid_widening_split: "list_all valid_assessment widening_split"
  by (simp add: widening_split_def example_assessment_def valid_assessment_def)



theorem weighted_risk_weighted_mean_witness:
  "unanimous_true \<noteq> [] \<and> list_all valid_assessment unanimous_true \<and>
   weighted_risk unanimous_true = spec_weighted_mean unanimous_true \<and>
   spec_weighted_mean unanimous_true = 9 / 10 \<and>
   findings (hd unanimous_true) \<noteq> [] \<and>
   7 / 10 \<le> spec_evidence_quality (hd unanimous_true) \<and>
   spec_evidence_quality (hd unanimous_true) \<le> 1 \<and>
   spec_evidence_quality (hd unanimous_true) = 97 / 100"
proof -
  have h1: "unanimous_true \<noteq> []" by (simp add: unanimous_true_def)
  have m: "spec_weighted_mean unanimous_true = 9 / 10"
    by (simp add: unanimous_true_def example_assessment_def example_finding_def
        spec_weighted_mean_def spec_truth_probability_def spec_weight_def spec_reliability_def
        spec_evidence_quality_def spec_mean_def)
  have q: "spec_evidence_quality (hd unanimous_true) = 97 / 100"
    by (simp add: unanimous_true_def example_assessment_def example_finding_def
        spec_evidence_quality_def spec_mean_def)
  have f: "findings (hd unanimous_true) \<noteq> []"
    by (simp add: unanimous_true_def example_assessment_def)
  have i: "hd unanimous_true \<in> set unanimous_true" using h1 by simp
  show ?thesis
    using h1 valid_unanimous_true m q f i
      weighted_risk_weighted_mean [OF h1 valid_unanimous_true]
    by auto
qed

theorem disagreement_pull_witness:
  "0 < length (filter (\<lambda>a. position a = LONG) widening_split) \<and>
   0 < length (filter (\<lambda>a. position a = SHORT) widening_split) \<and>
   length (filter (\<lambda>a. position a = LONG) widening_split)
     = length (filter (\<lambda>a. position a = SHORT) widening_split) \<and>
   final_risk widening_split - 1 / 2
     = (1 - 15 / 100 * spec_minority_share widening_split) * (weighted_risk widening_split - 1 / 2) \<and>
   spec_minority_share widening_split = 1 / 2 \<and>
   length (filter (\<lambda>a. position a = SHORT) widening_unanimous) = 0 \<and>
   final_risk widening_unanimous = weighted_risk widening_unanimous \<and>
   \<bar>final_risk [example_assessment ''NumericVerifier'' LONG (9 / 10) [],
                example_assessment ''RetrieverAgent'' SHORT (9 / 10) []] - 1 / 2\<bar>
     < \<bar>final_risk [example_assessment ''NumericVerifier'' LONG (9 / 10) [],
                  example_assessment ''RetrieverAgent'' LONG (9 / 10) []] - 1 / 2\<bar>"
proof -
  have d: "0 < length (filter (\<lambda>a. position a = LONG) widening_split) \<and>
           0 < length (filter (\<lambda>a. position a = SHORT) widening_split)"
    by (simp add: widening_split_def example_assessment_def)
  have e: "length (filter (\<lambda>a. position a = LONG) widening_split)
             = length (filter (\<lambda>a. position a = SHORT) widening_split)"
    by (simp add: widening_split_def example_assessment_def)
  have u: "length (filter (\<lambda>a. position a = SHORT) widening_unanimous) = 0"
    by (simp add: widening_unanimous_def example_assessment_def)
  have v: "valid_assessment (example_assessment ''NumericVerifier'' LONG (9 / 10) []) \<and>
           valid_assessment (example_assessment ''RetrieverAgent'' SHORT (9 / 10) []) \<and>
           valid_assessment (example_assessment ''NumericVerifier'' LONG (9 / 10) []) \<and>
           valid_assessment (example_assessment ''RetrieverAgent'' LONG (9 / 10) []) \<and>
           position (example_assessment ''NumericVerifier'' LONG (9 / 10) [])
             \<noteq> position (example_assessment ''RetrieverAgent'' SHORT (9 / 10) []) \<and>
           position (example_assessment ''NumericVerifier'' LONG (9 / 10) [])
             = position (example_assessment ''RetrieverAgent'' LONG (9 / 10) []) \<and>
           confidence (example_assessment ''NumericVerifier'' LONG (9 / 10) []) = 9 / 10 \<and>
           confidence (example_assessment ''RetrieverAgent'' SHORT (9 / 10) []) = 9 / 10 \<and>
           confidence (example_assessment ''NumericVerifier'' LONG (9 / 10) []) = 9 / 10 \<and>
           confidence (example_assessment ''RetrieverAgent'' LONG (9 / 10) []) = 9 / 10 \<and>
           (9 / 10 :: real) \<noteq> 1 / 2"
    by (simp add: example_assessment_def valid_assessment_def)
  show ?thesis
    using d e u v
      disagreement_pull [of widening_split widening_unanimous
        "example_assessment ''NumericVerifier'' LONG (9 / 10) []"
        "example_assessment ''RetrieverAgent'' SHORT (9 / 10) []"
        "example_assessment ''NumericVerifier'' LONG (9 / 10) []"
        "example_assessment ''RetrieverAgent'' LONG (9 / 10) []" "9 / 10"]
    by blast
qed

theorem overall_action_precedence_witness:
  "determine_overall_action
     [example_verification ALLOW MED, example_verification BLOCK CRITICAL,
      example_verification ALLOW LOW] = BLOCK \<and>
   determine_overall_action [example_verification ALLOW HIGH, example_verification REWRITE LOW]
     = REWRITE \<and>
   determine_overall_action [example_verification BLOCK LOW, example_verification ALLOW HIGH]
     = REWRITE \<and>
   determine_overall_action [example_verification ALLOW CRITICAL] = ALLOW \<and>
   determine_overall_action [] = BLOCK"
  using overall_action_precedence
          [of "[example_verification ALLOW MED, example_verification BLOCK CRITICAL,
                example_verification ALLOW LOW]"]
        overall_action_precedence
          [of "[example_verification ALLOW HIGH, example_verification REWRITE LOW]"]
        overall_action_precedence
          [of "[example_verification BLOCK LOW, example_verification ALLOW HIGH]"]
        overall_action_precedence [of "[example_verification ALLOW CRITICAL]"]
        overall_action_precedence [of "[]"]
  by (simp add: example_verification_def)

theorem overall_action_order_invariant_witness:
  "mset (map (\<lambda>v. (action v, severity (claim v)))
           [example_verification BLOCK LOW, example_verification BLOCK HIGH,
            example_verification REWRITE MED]) =
   mset (map (\<lambda>v. (action v, severity (claim v)))
           [example_verification REWRITE MED, example_verification BLOCK LOW,
            example_verification BLOCK HIGH]) \<and>
   determine_overall_action
     [example_verification BLOCK LOW, example_verification BLOCK HIGH,
      example_verification REWRITE MED] =
   determine_overall_action
     [example_verification REWRITE MED, example_verification BLOCK LOW,
      example_verification BLOCK HIGH]"
proof -
  have h: "mset (map (\<lambda>v. (action v, severity (claim v)))
           [example_verification BLOCK LOW, example_verification BLOCK HIGH,
            example_verification REWRITE MED]) =
   mset (map (\<lambda>v. (action v, severity (claim v)))
           [example_verification REWRITE MED, example_verification BLOCK LOW,
            example_verification BLOCK HIGH])"
    by (simp add: example_verification_def)
  show ?thesis using h overall_action_order_invariant [OF h] by simp
qed

theorem severity_monotone_witness:
  "list_all valid_assessment unanimous_true \<and>
   severity_rank MED \<le> severity_rank CRITICAL \<and>
   (\<exists>v1 v2. aggregate_risk default_config (example_claim\<lparr>severity := MED\<rparr>) unanimous_true = Inr v1 \<and>
        aggregate_risk default_config (example_claim\<lparr>severity := CRITICAL\<rparr>) unanimous_true = Inr v2 \<and>
        strictness (action v1) \<le> strictness (action v2))"
proof -
  have s: "severity_rank MED \<le> severity_rank CRITICAL" by simp
  show ?thesis
    using s valid_unanimous_true
      severity_monotone [OF valid_unanimous_true s, of default_config example_claim]
    by simp
qed

section \<open>Properties of the orchestrator\<close>

subsection \<open>Empty extraction and batch mode\<close>

text \<open>
  Claim C9. For every prompt, response and domain, if \<open>extract_claims\<close> yields no claim,
  batch mode returns at once a session with overall action ALLOW, no verifications and no
  settlement, and streaming mode ends after the events session-created, claims-extracted
  and an ALLOW action event; in both modes the log of calls is empty: no verifier and no
  settlement call was made.
\<close>

theorem empty_claims_short_circuit:
  assumes "extract_claims env response dmn = []"
  shows "run_verification env p response dmn =
           ([], Inr \<lparr>vs_id = new_session_id env, prompt = p, llm_response = response,
                     claims = [], verifications = [], settlement = None,
                     overall_action = Some ALLOW\<rparr>) \<and>
         run_verification_streaming env p response dmn =
           ([\<lparr>ev_type = SESSION_CREATED, ev_data = SessionCreatedData (new_session_id env) p\<rparr>,
             \<lparr>ev_type = CLAIMS_EXTRACTED, ev_data = ClaimsExtractedData []\<rparr>,
             \<lparr>ev_type = ACTION, ev_data = ActionData ''ALLOW'' ''No verifiable claims found.''\<rparr>],
            [], None)"
  using assms by (simp add: run_verification_def run_verification_streaming_def Let_def)

theorem empty_claims_short_circuit_witness:
  "extract_claims (example_env [] [steady_verifier ''NumericVerifier'', failing_verifier])
     ''Thanks for asking.'' ''finance'' = [] \<and>
   fst (run_verification (example_env [] [steady_verifier ''NumericVerifier'', failing_verifier])
     ''Hello'' ''Thanks for asking.'' ''finance'') = [] \<and>
   fst (snd (run_verification_streaming
     (example_env [] [steady_verifier ''NumericVerifier'', failing_verifier])
     ''Hello'' ''Thanks for asking.'' ''finance'')) = []"
proof -
  have h: "extract_claims (example_env [] [steady_verifier ''NumericVerifier'', failing_verifier])
     ''Thanks for asking.'' ''finance'' = []"
    by (simp add: example_env_def)
  show ?thesis
    using h empty_claims_short_circuit [OF h, of "''Hello''"] by simp
qed


text \<open>
  Batch mode never ends with an exception, whatever the verifiers raise: the results that
  are exceptions are dropped by \<open>valid_assessments\<close>, every claim gets its verification
  and, when there is a claim, the session gets its settlement.
\<close>

lemma aggregate_risk_returns:
  assumes "list_all valid_assessment as"
  shows "\<exists>v. aggregate_risk cfg c as = Inr v \<and> claim v = c \<and> assessments v = as"
proof (cases "as = []")
  case True
  then show ?thesis by (simp add: aggregate_risk_def new_ClaimVerification_def)
next
  case False
  then show ?thesis by (simp add: aggregate_risk_nonempty [OF False assms])
qed

lemma valid_assessments_sound:
  "list_all (\<lambda>agent. \<forall>c ctx a. agent c ctx = Inr a \<longrightarrow> valid_assessment a) agents \<Longrightarrow>
     list_all valid_assessment (valid_assessments (gather agents c ctx))"
proof (induction agents)
  case Nil
  then show ?case by (simp add: gather_def)
next
  case (Cons agent agents)
  then show ?case by (cases "agent c ctx") (simp_all add: gather_def)
qed

lemma batch_loop_completes:
  assumes "sound_verifiers env"
  shows "\<exists>st'. batch_loop env cs dmn rest st = (st', None) \<and>
           map claim (all_verifications st') = map claim (all_verifications st) @ rest"
proof (induction rest arbitrary: st)
  case Nil
  then show ?case by simp
next
  case (Cons c rest)
  let ?ctx = "make_context cs c (all_assessments st) dmn"
  let ?valid = "valid_assessments (gather (ALL_AGENTS env) c ?ctx)"
  have "list_all valid_assessment ?valid"
    using assms unfolding sound_verifiers_def by (rule valid_assessments_sound)
  then obtain v where v: "aggregate_risk (config env) c ?valid = Inr v" "claim v = c"
    using aggregate_risk_returns by blast
  let ?st3 = "st\<lparr>calls := calls st @ gather_calls (ALL_AGENTS env) c ?ctx,
                  all_assessments := AList.update (c_id c) ?valid (all_assessments st),
                  all_verifications := all_verifications st @ [v]\<rparr>"
  have step: "batch_loop env cs dmn (c # rest) st = batch_loop env cs dmn rest ?st3"
    by (simp add: Let_def v)
  from Cons.IH [of ?st3] obtain st' where
    "batch_loop env cs dmn rest ?st3 = (st', None)"
    "map claim (all_verifications st') = map claim (all_verifications ?st3) @ rest"
    by blast
  then show ?case using step v(2) by simp
qed

lemma run_verification_returns:
  assumes "sound_verifiers env"
  shows "\<exists>s. snd (run_verification env p response dmn) = Inr s \<and>
              map claim (verifications s) = extract_claims env response dmn \<and>
              (extract_claims env response dmn \<noteq> [] \<longrightarrow> settlement s \<noteq> None)"
proof (cases "extract_claims env response dmn = []")
  case True
  then show ?thesis by (simp add: run_verification_def Let_def)
next
  case False
  let ?cs = "extract_claims env response dmn"
  from batch_loop_completes [OF assms, of ?cs dmn ?cs "initial_state []"]
  obtain st' where "batch_loop env ?cs dmn ?cs (initial_state []) = (st', None)"
    "map claim (all_verifications st') = ?cs"
    by (auto simp: initial_state_def)
  then show ?thesis using False by (simp add: run_verification_def Let_def)
qed

text \<open>
  The keys of the \<open>other_assessments\<close> that a verifier of a claim receives in batch mode
  are the ids of the claims before it in the list.
\<close>

lemma keys_update: "fst ` set (AList.update k v d) = insert k (fst ` set d)"
  by (simp add: dom_update)

lemma batch_contexts:
  assumes "batch_loop env cs dmn rest st = (st', err)"
    and "VerifyCall i c ctx \<in> set (calls st')"
  shows "VerifyCall i c ctx \<in> set (calls st) \<or>
         (\<exists>pre post. rest = pre @ c # post \<and>
            fst ` set (other_assessments ctx) = fst ` set (all_assessments st) \<union> c_id ` set pre)"
  using assms
proof (induction rest arbitrary: st)
  case Nil
  then show ?case by simp
next
  case (Cons c0 rest)
  let ?ctx = "make_context cs c0 (all_assessments st) dmn"
  let ?valid = "valid_assessments (gather (ALL_AGENTS env) c0 ?ctx)"
  let ?st2 = "st\<lparr>calls := calls st @ gather_calls (ALL_AGENTS env) c0 ?ctx,
                  all_assessments := AList.update (c_id c0) ?valid (all_assessments st)\<rparr>"
  have new: "VerifyCall i c ctx \<in> set (calls ?st2) \<Longrightarrow>
               VerifyCall i c ctx \<in> set (calls st) \<or>
               (c = c0 \<and> fst ` set (other_assessments ctx) = fst ` set (all_assessments st))"
    by (auto simp: gather_calls_def make_context_def)
  show ?case
  proof (cases "aggregate_risk (config env) c0 ?valid")
    case (Inl e)
    then have "st' = ?st2" using Cons.prems(1) by (simp add: Let_def)
    then have "VerifyCall i c ctx \<in> set (calls ?st2)" using Cons.prems(2) by simp
    from new [OF this] show ?thesis
    proof
      assume "VerifyCall i c ctx \<in> set (calls st)"
      then show ?thesis by simp
    next
      assume "c = c0 \<and> fst ` set (other_assessments ctx) = fst ` set (all_assessments st)"
      then have "c0 # rest = [] @ c # rest \<and>
          fst ` set (other_assessments ctx) = fst ` set (all_assessments st) \<union> c_id ` set []"
        by simp
      then show ?thesis by blast
    qed
  next
    case (Inr v)
    let ?st3 = "?st2\<lparr>all_verifications := all_verifications ?st2 @ [v]\<rparr>"
    have "batch_loop env cs dmn rest ?st3 = (st', err)"
      using Cons.prems(1) Inr by (simp add: Let_def)
    from Cons.IH [OF this Cons.prems(2)]
    show ?thesis
    proof
      assume "VerifyCall i c ctx \<in> set (calls ?st3)"
      then have "VerifyCall i c ctx \<in> set (calls ?st2)" by simp
      from new [OF this] show ?thesis
      proof
        assume "VerifyCall i c ctx \<in> set (calls st)"
        then show ?thesis by simp
      next
        assume "c = c0 \<and> fst ` set (other_assessments ctx) = fst ` set (all_assessments st)"
        then have "c0 # rest = [] @ c # rest \<and>
            fst ` set (other_assessments ctx) = fst ` set (all_assessments st) \<union> c_id ` set []"
          by simp
        then show ?thesis by blast
      qed
    next
      assume "\<exists>pre post. rest = pre @ c # post \<and>
            fst ` set (other_assessments ctx) = fst ` set (all_assessments ?st3) \<union> c_id ` set pre"
      then obtain pre post where pp: "rest = pre @ c # post"
        "fst ` set (other_assessments ctx) = fst ` set (all_assessments ?st3) \<union> c_id ` set pre"
        by blast
      have "c0 # rest = (c0 # pre) @ c # post" using pp(1) by simp
      moreover have "fst ` set (other_assessments ctx)
                       = fst ` set (all_assessments st) \<union> c_id ` set (c0 # pre)"
        using pp(2) by (simp add: keys_update)
      ultimately show ?thesis by blast
    qed
  qed
qed

subsection \<open>The contexts passed to the verifiers\<close>

text \<open>
  In streaming mode the keys are among the ids of the claims before it and its own id. In
  both modes a claim later in a list of distinct ids has no entry.
\<close>

lemma keys_append_assessment:
  "fst ` set (append_assessment k a d) = insert k (fst ` set d)"
proof (cases "map_of d k")
  case None
  then show ?thesis
    by (simp add: append_assessment_def update_conv' keys_update)
next
  case (Some as)
  then have "k \<in> fst ` set d" by (metis map_of_eq_None_iff option.distinct(1))
  then show ?thesis using Some
    by (auto simp: append_assessment_def keys_update)
qed

lemma agent_loop_contexts:
  assumes "agent_loop cs dmn c ags st = (st', err)"
  shows "fst ` set (all_assessments st') \<subseteq> insert (c_id c) (fst ` set (all_assessments st)) \<and>
         (\<forall>i c' ctx. VerifyCall i c' ctx \<in> set (calls st') \<longrightarrow>
            VerifyCall i c' ctx \<in> set (calls st) \<or>
            (c' = c \<and> fst ` set (other_assessments ctx)
                        \<subseteq> insert (c_id c) (fst ` set (all_assessments st))))"
  using assms
proof (induction ags arbitrary: st)
  case Nil
  then show ?case by auto
next
  case (Cons ia ags)
  obtain i0 agent where ia: "ia = (i0, agent)" by (cases ia)
  let ?ctx = "make_context cs c (all_assessments st) dmn"
  let ?st1 = "st\<lparr>calls := calls st @ [VerifyCall i0 c ?ctx]\<rparr>"
  have k0: "fst ` set (other_assessments ?ctx) = fst ` set (all_assessments st)"
    by (simp add: make_context_def)
  show ?case
  proof (cases "agent c ?ctx")
    case (Inl e)
    then have "st' = ?st1" using Cons.prems by (simp add: ia Let_def)
    then show ?thesis using k0 by auto
  next
    case (Inr a)
    let ?st3 = "?st1\<lparr>events := events ?st1 @ [agent_quote c a],
                     all_assessments := append_assessment (c_id c) a (all_assessments st)\<rparr>"
    have "agent_loop cs dmn c ags ?st3 = (st', err)"
      using Cons.prems Inr by (simp add: ia Let_def)
    from Cons.IH [OF this]
    have ih: "fst ` set (all_assessments st') \<subseteq> insert (c_id c) (fst ` set (all_assessments ?st3))"
      "\<And>i c' ctx. VerifyCall i c' ctx \<in> set (calls st') \<Longrightarrow>
            VerifyCall i c' ctx \<in> set (calls ?st3) \<or>
            (c' = c \<and> fst ` set (other_assessments ctx)
                        \<subseteq> insert (c_id c) (fst ` set (all_assessments ?st3)))"
      by blast+
    have k3: "fst ` set (all_assessments ?st3) = insert (c_id c) (fst ` set (all_assessments st))"
      by (simp add: keys_append_assessment)
    show ?thesis
    proof (intro conjI allI impI)
      show "fst ` set (all_assessments st') \<subseteq> insert (c_id c) (fst ` set (all_assessments st))"
        using ih(1) k3 by auto
    next
      fix i c' ctx
      assume "VerifyCall i c' ctx \<in> set (calls st')"
      from ih(2) [OF this]
      show "VerifyCall i c' ctx \<in> set (calls st) \<or>
            (c' = c \<and> fst ` set (other_assessments ctx)
                        \<subseteq> insert (c_id c) (fst ` set (all_assessments st)))"
        using k0 k3 by auto
    qed
  qed
qed

lemma stream_contexts:
  assumes "stream_loop env cs dmn rest st = (st', err)"
    and "VerifyCall i c ctx \<in> set (calls st')"
  shows "VerifyCall i c ctx \<in> set (calls st) \<or>
         (\<exists>pre post. rest = pre @ c # post \<and>
            fst ` set (other_assessments ctx)
              \<subseteq> fst ` set (all_assessments st) \<union> c_id ` set (pre @ [c]))"
  using assms
proof (induction rest arbitrary: st)
  case Nil
  then show ?case by simp
next
  case (Cons c0 rest)
  obtain st1 e1 where al: "agent_loop cs dmn c0 (enumerate 0 (ALL_AGENTS env)) st = (st1, e1)"
    by (cases "agent_loop cs dmn c0 (enumerate 0 (ALL_AGENTS env)) st")
  note ac = agent_loop_contexts [OF al]
  have first: "VerifyCall i c ctx \<in> set (calls st1) \<Longrightarrow>
      VerifyCall i c ctx \<in> set (calls st) \<or>
         (\<exists>pre post. c0 # rest = pre @ c # post \<and>
            fst ` set (other_assessments ctx)
              \<subseteq> fst ` set (all_assessments st) \<union> c_id ` set (pre @ [c]))"
  proof -
    assume "VerifyCall i c ctx \<in> set (calls st1)"
    with ac have "VerifyCall i c ctx \<in> set (calls st) \<or>
            (c = c0 \<and> fst ` set (other_assessments ctx)
                        \<subseteq> insert (c_id c0) (fst ` set (all_assessments st)))"
      by blast
    then show ?thesis
    proof
      assume "VerifyCall i c ctx \<in> set (calls st)"
      then show ?thesis by simp
    next
      assume "c = c0 \<and> fst ` set (other_assessments ctx)
                        \<subseteq> insert (c_id c0) (fst ` set (all_assessments st))"
      then have "c0 # rest = [] @ c # rest \<and>
            fst ` set (other_assessments ctx)
              \<subseteq> fst ` set (all_assessments st) \<union> c_id ` set ([] @ [c])"
        by auto
      then show ?thesis by blast
    qed
  qed
  have stop: "st' = st1 \<Longrightarrow> ?case"
    using first Cons.prems(2) by simp
  show ?case
  proof (cases e1)
    case (Some e)
    then have "st' = st1" using Cons.prems(1) al by simp
    then show ?thesis by (rule stop)
  next
    case None
    show ?thesis
    proof (cases "map_of (all_assessments st1) (c_id c0)")
      case n: None
      then have "st' = st1" using Cons.prems(1) al None by simp
      then show ?thesis by (rule stop)
    next
      case (Some as)
      show ?thesis
      proof (cases "aggregate_risk (config env) c0 as")
        case (Inl e)
        then have "st' = st1" using Cons.prems(1) al None Some by simp
        then show ?thesis by (rule stop)
      next
        case (Inr v)
        let ?st2 = "st1\<lparr>all_verifications := all_verifications st1 @ [v],
                        events := events st1 @ [risk_update c0 v]\<rparr>"
        have "stream_loop env cs dmn rest ?st2 = (st', err)"
          using Cons.prems(1) al None Some Inr by simp
        from Cons.IH [OF this Cons.prems(2)]
        show ?thesis
        proof
          assume "VerifyCall i c ctx \<in> set (calls ?st2)"
          then have "VerifyCall i c ctx \<in> set (calls st1)" by simp
          then show ?thesis by (rule first)
        next
          assume "\<exists>pre post. rest = pre @ c # post \<and>
            fst ` set (other_assessments ctx)
              \<subseteq> fst ` set (all_assessments ?st2) \<union> c_id ` set (pre @ [c])"
          then obtain pre post where pp: "rest = pre @ c # post"
            "fst ` set (other_assessments ctx)
              \<subseteq> fst ` set (all_assessments ?st2) \<union> c_id ` set (pre @ [c])"
            by blast
          have "c0 # rest = (c0 # pre) @ c # post" using pp(1) by simp
          moreover have "fst ` set (other_assessments ctx)
              \<subseteq> fst ` set (all_assessments st) \<union> c_id ` set ((c0 # pre) @ [c])"
            using pp(2) ac [THEN conjunct1] by auto
          ultimately show ?thesis by blast
        qed
      qed
    qed
  qed
qed

lemma batch_mode_contexts:
  assumes "VerifyCall i c ctx \<in> set (fst (run_verification env p response dmn))"
  shows "\<exists>pre post. extract_claims env response dmn = pre @ c # post \<and>
           fst ` set (other_assessments ctx) = c_id ` set pre"
proof -
  let ?cs = "extract_claims env response dmn"
  have ne: "?cs \<noteq> []" using assms by (auto simp: run_verification_def Let_def)
  obtain st err where bl: "batch_loop env ?cs dmn ?cs (initial_state []) = (st, err)"
    by (cases "batch_loop env ?cs dmn ?cs (initial_state [])")
  have "VerifyCall i c ctx \<in> set (calls st)"
    using assms ne bl by (cases err) (auto simp: run_verification_def Let_def)
  from batch_contexts [OF bl this] show ?thesis by (simp add: initial_state_def)
qed

lemma streaming_mode_contexts:
  assumes "VerifyCall i c ctx \<in> set (fst (snd (run_verification_streaming env p response dmn)))"
  shows "\<exists>pre post. extract_claims env response dmn = pre @ c # post \<and>
           fst ` set (other_assessments ctx) \<subseteq> c_id ` set (pre @ [c])"
proof -
  let ?cs = "extract_claims env response dmn"
  let ?st0 = "initial_state
      [\<lparr>ev_type = SESSION_CREATED, ev_data = SessionCreatedData (new_session_id env) p\<rparr>,
       \<lparr>ev_type = CLAIMS_EXTRACTED,
        ev_data = ClaimsExtractedData (map (\<lambda>c. (c_id c, c_text c, c_type c, severity c)) ?cs)\<rparr>]"
  have ne: "?cs \<noteq> []" using assms by (auto simp: run_verification_streaming_def Let_def)
  obtain st err where sl: "stream_loop env ?cs dmn ?cs ?st0 = (st, err)"
    by (cases "stream_loop env ?cs dmn ?cs ?st0")
  have "VerifyCall i c ctx \<in> set (calls st)"
    using assms ne sl by (cases err) (auto simp: run_verification_streaming_def Let_def)
  from stream_contexts [OF sl this] show ?thesis by (simp add: initial_state_def)
qed

lemma later_claims_unseen:
  assumes "distinct (map c_id cs)" and "cs = pre @ c # post" and "m \<in> set post"
  shows "c_id m \<notin> c_id ` set (pre @ [c])"
proof -
  have "c_id m \<in> c_id ` set post" using assms(3) by simp
  moreover have "c_id ` set (pre @ [c]) \<inter> c_id ` set post = {}"
    using assms(1,2) by auto
  ultimately show ?thesis by blast
qed

subsection \<open>Streaming mode on concrete inputs\<close>

text \<open>
  Claim C7 at a failing input: one claim, three verifiers of which the second raises. In
  streaming mode the exception leaves \<open>run_verification_streaming\<close> after the agent-quote
  event of the first verifier: no risk-update and no settlement event follows. Batch mode,
  on the same input, aggregates the two assessments that were returned and completes the
  session.
\<close>

theorem streaming_verifier_error_escapes:
  "snd (snd (run_verification_streaming crash_env ''q'' ''r'' ''finance''))
     = Some (VerifierError ''connection refused'') \<and>
   map ev_type (fst (run_verification_streaming crash_env ''q'' ''r'' ''finance''))
     = [SESSION_CREATED, CLAIMS_EXTRACTED, AGENT_QUOTE] \<and>
   session_summary (snd (run_verification crash_env ''q'' ''r'' ''finance''))
     = Inr ([[''NumericVerifier'', ''ConsistencyBot'']], Some REWRITE, True)"
  by code_simp

text \<open>
  Claim C8 at a failing input: two claims, three verifiers. In streaming mode the second
  and third verifier of each claim receive an \<open>other_assessments\<close> that already holds,
  under the id of the claim in flight, the assessments of the verifiers that ran before
  them. In batch mode, on the same input, every verifier of a claim sees the assessments
  of the earlier claims only.
\<close>

theorem streaming_context_holds_claim_in_flight:
  "map seen_by (fst (snd (run_verification_streaming two_claim_env ''q'' ''r'' ''finance'')))
     = [Some (0, ''CLM-001'', []),
        Some (1, ''CLM-001'', [(''CLM-001'', [''NumericVerifier''])]),
        Some (2, ''CLM-001'', [(''CLM-001'', [''NumericVerifier'', ''RetrieverAgent''])]),
        Some (0, ''CLM-002'',
              [(''CLM-001'', [''NumericVerifier'', ''RetrieverAgent'', ''ConsistencyBot''])]),
        Some (1, ''CLM-002'',
              [(''CLM-001'', [''NumericVerifier'', ''RetrieverAgent'', ''ConsistencyBot'']),
               (''CLM-002'', [''NumericVerifier''])]),
        Some (2, ''CLM-002'',
              [(''CLM-001'', [''NumericVerifier'', ''RetrieverAgent'', ''ConsistencyBot'']),
               (''CLM-002'', [''NumericVerifier'', ''RetrieverAgent''])]),
        None] \<and>
   map seen_by (fst (run_verification two_claim_env ''q'' ''r'' ''finance''))
     = [Some (0, ''CLM-001'', []), Some (1, ''CLM-001'', []), Some (2, ''CLM-001'', []),
        Some (0, ''CLM-002'',
              [(''CLM-001'', [''NumericVerifier'', ''RetrieverAgent'', ''ConsistencyBot''])]),
        Some (1, ''CLM-002'',
              [(''CLM-001'', [''NumericVerifier'', ''RetrieverAgent'', ''ConsistencyBot''])]),
        Some (2, ''CLM-002'',
              [(''CLM-001'', [''NumericVerifier'', ''RetrieverAgent'', ''ConsistencyBot''])]),
        None]"
  by code_simp

end
